theory Spec2Isabelle
  imports Complex_Main "HOL-Library.Log_Nat"
begin

section \<open>The numbers of the notebook\<close>

text \<open>
  Every quantity of \<^verbatim>\<open>airsea_data.ipynb\<close> is a Python \<^verbatim>\<open>float\<close> or a NumPy \<^verbatim>\<open>float64\<close>:
  an IEEE 754 binary64 number. The model is bit for bit:
  \<^item> \<open>Fin s m e\<close> is the finite number \<open>(-1)^s * m * 2^e\<close>. A binary64 number has
    \<open>0 \<le> m < 2^53\<close> and \<open>-1074 \<le> e \<le> 971\<close>, with \<open>2^52 \<le> m\<close> (normal) or \<open>e = -1074\<close>
    (subnormal or zero); the two zeros are \<open>Fin False 0 (-1074)\<close> and \<open>Fin True 0 (-1074)\<close>;
  \<^item> \<open>PosInf\<close>, \<open>NegInf\<close> and \<open>NaN\<close> are the two infinities and not-a-number.

  The operations \<^verbatim>\<open>+\<close>, \<^verbatim>\<open>-\<close>, \<^verbatim>\<open>*\<close>, \<^verbatim>\<open>/\<close> and \<^verbatim>\<open>np.sqrt\<close> return the exact result rounded to
  nearest, ties to even, with overflow to an infinity and gradual underflow, as IEEE 754
  prescribes. An invalid operation gives \<open>NaN\<close> and a nonzero number over a zero gives an
  infinity; NumPy signals both with a \<^verbatim>\<open>RuntimeWarning\<close>, not with an exception.
\<close>

datatype npfloat = Fin bool int int | PosInf | NegInf | NaN

text \<open>The sign bit.\<close>

fun negative :: "npfloat \<Rightarrow> bool" where
  "negative (Fin s m e) = s"
| "negative PosInf = False"
| "negative NegInf = True"
| "negative NaN = False"

fun is_finite :: "npfloat \<Rightarrow> bool" where
  "is_finite (Fin s m e) = True"
| "is_finite PosInf = False"
| "is_finite NegInf = False"
| "is_finite NaN = False"

fun is_zero :: "npfloat \<Rightarrow> bool" where
  "is_zero (Fin s m e) = (m = 0)"
| "is_zero PosInf = False"
| "is_zero NegInf = False"
| "is_zero NaN = False"

fun is_inf :: "npfloat \<Rightarrow> bool" where
  "is_inf PosInf = True"
| "is_inf NegInf = True"
| "is_inf (Fin s m e) = False"
| "is_inf NaN = False"

text \<open>Mantissa, signed mantissa and exponent of a finite number (\<open>0\<close> for the others).\<close>

fun mant :: "npfloat \<Rightarrow> int" where
  "mant (Fin s m e) = m"
| "mant PosInf = 0"
| "mant NegInf = 0"
| "mant NaN = 0"

fun smant :: "npfloat \<Rightarrow> int" where
  "smant (Fin s m e) = (if s then - m else m)"
| "smant PosInf = 0"
| "smant NegInf = 0"
| "smant NaN = 0"

fun expo :: "npfloat \<Rightarrow> int" where
  "expo (Fin s m e) = e"
| "expo PosInf = 0"
| "expo NegInf = 0"
| "expo NaN = 0"

text \<open>The binary64 numbers among the values of the type.\<close>

fun is_b64 :: "npfloat \<Rightarrow> bool" where
  "is_b64 (Fin s m e) =
     (0 \<le> m \<and> m < 2 ^ 53 \<and> - 1074 \<le> e \<and> e \<le> 971 \<and> (2 ^ 52 \<le> m \<or> e = - 1074))"
| "is_b64 PosInf = True"
| "is_b64 NegInf = True"
| "is_b64 NaN = True"

definition make_zero :: "bool \<Rightarrow> npfloat" where
  "make_zero neg = Fin neg 0 (- 1074)"

definition make_inf :: "bool \<Rightarrow> npfloat" where
  "make_inf neg = (if neg then NegInf else PosInf)"

text \<open>The integer nearest to \<open>a / b\<close> for \<open>b > 0\<close>, the even one of two equally near.\<close>

definition rne :: "int \<Rightarrow> int \<Rightarrow> int" where
  "rne a b =
     (let q = a div b; r = a mod b
      in if 2 * r < b then q else if b < 2 * r then q + 1 else if even q then q else q + 1)"

text \<open>
  The exponent of the leading bit of \<open>n/d\<close>, for \<open>n > 0\<close> and \<open>d > 0\<close>: the \<open>E\<close> with
  \<open>2^E \<le> n/d < 2^(E+1)\<close>. With \<open>b\<close> the difference of the bit lengths, \<open>n/d\<close> lies between
  \<open>2^(b-1)\<close> and \<open>2^(b+1)\<close>, and one comparison decides.
\<close>

definition lead_exp :: "int \<Rightarrow> int \<Rightarrow> int" where
  "lead_exp n d =
     (let b = bitlen n - bitlen d
      in if (if 0 \<le> b then d * 2 ^ nat b \<le> n else d \<le> n * 2 ^ nat (- b)) then b else b - 1)"

text \<open>
  Rounding. \<open>round_q neg n d k\<close> is the binary64 number nearest to \<open>(-1)^neg * (n/d) * 2^k\<close>,
  for \<open>n > 0\<close> and \<open>d > 0\<close>: \<open>e\<close> is the exponent of the last kept bit, 52 below the leading
  bit and not below \<open>-1074\<close>, and \<open>M\<close> the mantissa rounded to nearest, ties to even; a
  mantissa rounded up to \<open>2^53\<close> is the next power of two, and an exponent above \<open>971\<close> is an
  overflow.
\<close>

definition round_q :: "bool \<Rightarrow> int \<Rightarrow> int \<Rightarrow> int \<Rightarrow> npfloat" where
  "round_q neg n d k =
     (let e = max (lead_exp n d + k - 52) (- 1074);
          M = (if e \<le> k then rne (n * 2 ^ nat (k - e)) d else rne n (d * 2 ^ nat (e - k)))
      in if M = 2 ^ 53 then (if 971 < e + 1 then make_inf neg else Fin neg (2 ^ 52) (e + 1))
         else if 971 < e then make_inf neg else Fin neg M e)"

text \<open>
  A literal: \<^verbatim>\<open>0.06\<close> is \<open>dec 6 100\<close>, the binary64 number nearest to \<open>6/100\<close>; an integer
  literal in a float operation (\<^verbatim>\<open>1\<close>, \<^verbatim>\<open>1000\<close>) is converted the same way.
\<close>

definition dec :: "int \<Rightarrow> int \<Rightarrow> npfloat" where
  "dec n d = (if n = 0 then make_zero False else round_q False n d 0)"

text \<open>Unary minus flips the sign bit.\<close>

fun fl_neg :: "npfloat \<Rightarrow> npfloat" where
  "fl_neg (Fin s m e) = Fin (\<not> s) m e"
| "fl_neg PosInf = NegInf"
| "fl_neg NegInf = PosInf"
| "fl_neg NaN = NaN"

text \<open>
  \<^verbatim>\<open>a + b\<close>: opposite infinities give \<open>NaN\<close>; an exact sum of zero is \<^verbatim>\<open>+0.0\<close> unless both
  operands are negative; any other sum is rounded.
\<close>

definition fl_add :: "npfloat \<Rightarrow> npfloat \<Rightarrow> npfloat" where
  "fl_add a b =
     (if a = NaN \<or> b = NaN then NaN
      else if is_inf a \<and> is_inf b then (if a = b then a else NaN)
      else if is_inf a then a
      else if is_inf b then b
      else (let e = min (expo a) (expo b);
                n = smant a * 2 ^ nat (expo a - e) + smant b * 2 ^ nat (expo b - e)
            in if n = 0 then make_zero (negative a \<and> negative b)
               else round_q (n < 0) \<bar>n\<bar> 1 e))"

definition fl_sub :: "npfloat \<Rightarrow> npfloat \<Rightarrow> npfloat" where
  "fl_sub a b = fl_add a (fl_neg b)"

text \<open>\<^verbatim>\<open>a * b\<close>: an infinity times a zero is \<open>NaN\<close>; the sign is the exclusive or of the signs.\<close>

definition fl_mul :: "npfloat \<Rightarrow> npfloat \<Rightarrow> npfloat" where
  "fl_mul a b =
     (if a = NaN \<or> b = NaN then NaN
      else if (is_inf a \<and> is_zero b) \<or> (is_zero a \<and> is_inf b) then NaN
      else if is_inf a \<or> is_inf b then make_inf (negative a \<noteq> negative b)
      else if mant a * mant b = 0 then make_zero (negative a \<noteq> negative b)
      else round_q (negative a \<noteq> negative b) (mant a * mant b) 1 (expo a + expo b))"

text \<open>
  \<^verbatim>\<open>a / b\<close> on \<^verbatim>\<open>float64\<close>: \<^verbatim>\<open>inf/inf\<close> and \<^verbatim>\<open>0/0\<close> are \<open>NaN\<close>, a nonzero number over a
  zero is an infinity; nothing is raised. (Python raises \<^verbatim>\<open>ZeroDivisionError\<close> when both
  operands are Python floats; the notebook divides Python floats by nonzero literals only.)
\<close>

definition fl_div :: "npfloat \<Rightarrow> npfloat \<Rightarrow> npfloat" where
  "fl_div a b =
     (if a = NaN \<or> b = NaN then NaN
      else if (is_inf a \<and> is_inf b) \<or> (is_zero a \<and> is_zero b) then NaN
      else if is_inf a \<or> is_zero b then make_inf (negative a \<noteq> negative b)
      else if is_inf b \<or> mant a = 0 then make_zero (negative a \<noteq> negative b)
      else round_q (negative a \<noteq> negative b) (mant a) (mant b) (expo a - expo b))"

text \<open>The integer square root, rounded down.\<close>

function isqrt :: "int \<Rightarrow> int" where
  "isqrt n =
     (if n < 2 then max n 0
      else (let r = 2 * isqrt (n div 4) in if (r + 1) * (r + 1) \<le> n then r + 1 else r))"
  by pat_completeness auto
termination
  by (relation "measure nat") auto

text \<open>
  \<^verbatim>\<open>np.sqrt(a)\<close>: a negative number gives \<open>NaN\<close> (never a complex number, never an exception),
  a zero is returned with its sign. For a positive number \<open>m * 2^e = N * 2^(2*j)\<close> with an
  integer \<open>N\<close> of at least 110 bits, the root lies in \<open>[r, r + 1) * 2^j\<close> for \<open>r = isqrt N\<close>;
  when it is not \<open>r * 2^j\<close> itself it rounds as \<open>(r + 1/2) * 2^j\<close> does, for no binary64 number
  and no midpoint of two lies strictly between.
\<close>

fun fl_sqrt :: "npfloat \<Rightarrow> npfloat" where
  "fl_sqrt (Fin s m e) =
     (if m = 0 then Fin s m e
      else if s then NaN
      else (let j = (e - 110) div 2;
                N = m * 2 ^ nat (e - 2 * j);
                r = isqrt N
            in if r * r = N then round_q False r 1 j else round_q False (2 * r + 1) 2 j))"
| "fl_sqrt PosInf = PosInf"
| "fl_sqrt NegInf = NaN"
| "fl_sqrt NaN = NaN"

text \<open>
  \<^verbatim>\<open>a ** n\<close> for a literal exponent \<open>n\<close> that is a natural number. Python and NumPy both call
  the C library's \<^verbatim>\<open>pow\<close>, which is not part of the notebook and whose rounding no standard
  fixes: it is the parameter \<open>cpow\<close>. What C (Annex F) fixes is modelled: a zero exponent,
  \<open>NaN\<close>, the infinities, the zeros and \<^verbatim>\<open>pow(1.0, y) = 1.0\<close>.
\<close>

fun fl_pow :: "(npfloat \<Rightarrow> nat \<Rightarrow> npfloat) \<Rightarrow> npfloat \<Rightarrow> nat \<Rightarrow> npfloat" where
  "fl_pow cpow (Fin s m e) n =
     (if n = 0 then Fin False (2 ^ 52) (- 52)
      else if m = 0 then (if odd n then Fin s m e else make_zero False)
      else if Fin s m e = Fin False (2 ^ 52) (- 52) then Fin False (2 ^ 52) (- 52)
      else cpow (Fin s m e) n)"
| "fl_pow cpow PosInf n = (if n = 0 then Fin False (2 ^ 52) (- 52) else PosInf)"
| "fl_pow cpow NegInf n =
     (if n = 0 then Fin False (2 ^ 52) (- 52) else if odd n then NegInf else PosInf)"
| "fl_pow cpow NaN n = (if n = 0 then Fin False (2 ^ 52) (- 52) else NaN)"

text \<open>
  What the notebook can raise, and the failures the specification names (section 7). On a
  Python \<^verbatim>\<open>float\<close>, \<^verbatim>\<open>a ** n\<close> raises \<^verbatim>\<open>OverflowError\<close> when \<^verbatim>\<open>pow\<close> returns an infinity for a
  finite \<^verbatim>\<open>a\<close>; on a NumPy \<^verbatim>\<open>float64\<close> the infinity is the result. Nothing in the notebook
  raises any of the specification's failures.
\<close>

datatype failure =
  OverflowError | InvalidInput | FluxEstimationFailed | InvalidSeawaterState | NumericSingularity

definition py_pow :: "(npfloat \<Rightarrow> nat \<Rightarrow> npfloat) \<Rightarrow> npfloat \<Rightarrow> nat \<Rightarrow> failure + npfloat" where
  "py_pow cpow a n =
     (if is_finite a \<and> is_inf (fl_pow cpow a n) then Inl OverflowError
      else Inr (fl_pow cpow a n))"

text \<open>A \<^verbatim>\<open>pow\<close> that rounds the exact power correctly, to stand for the library in examples.\<close>

definition cr_pow :: "npfloat \<Rightarrow> nat \<Rightarrow> npfloat" where
  "cr_pow a n =
     (if mant a = 0 then make_zero (negative a \<and> odd n)
      else round_q (negative a \<and> odd n) (mant a ^ n) 1 (expo a * int n))"

text \<open>\<^verbatim>\<open>a <= b\<close>: false when either is \<open>NaN\<close>; the zeros are equal.\<close>

definition fl_le :: "npfloat \<Rightarrow> npfloat \<Rightarrow> bool" where
  "fl_le a b =
     (if a = NaN \<or> b = NaN then False
      else if a = NegInf \<or> b = PosInf then True
      else if a = PosInf \<or> b = NegInf then False
      else (let e = min (expo a) (expo b)
            in smant a * 2 ^ nat (expo a - e) \<le> smant b * 2 ^ nat (expo b - e)))"

text \<open>
  For the proofs: the real number a finite float stands for, and rounding of a real number
  to the nearest integer, ties to even.
\<close>

fun fval :: "npfloat \<Rightarrow> real" where
  "fval (Fin s m e) = (if s then - 1 else 1) * real_of_int m * 2 powr real_of_int e"
| "fval PosInf = 0"
| "fval NegInf = 0"
| "fval NaN = 0"

definition rhe :: "real \<Rightarrow> int" where
  "rhe x =
     (if x - real_of_int \<lfloor>x\<rfloor> < 1 / 2 then \<lfloor>x\<rfloor>
      else if 1 / 2 < x - real_of_int \<lfloor>x\<rfloor> then \<lfloor>x\<rfloor> + 1
      else if even \<lfloor>x\<rfloor> then \<lfloor>x\<rfloor> else \<lfloor>x\<rfloor> + 1)"

text \<open>
  Rounding as a function of the real number \<open>x \<ge> 0\<close> to be rounded: \<open>rexp x\<close> is the exponent
  of the last kept bit, \<open>rval x\<close> the rounded number when the exponent range is unbounded
  above, and \<open>rnd neg x\<close> the binary64 result for the sign \<open>neg\<close>.
\<close>

definition rexp :: "real \<Rightarrow> int" where
  "rexp x = (if 0 < x then max (\<lfloor>log 2 x\<rfloor> - 52) (- 1074) else - 1074)"

definition rval :: "real \<Rightarrow> real" where
  "rval x = real_of_int (rhe (x / 2 powr real_of_int (rexp x))) * 2 powr real_of_int (rexp x)"

definition rnd :: "bool \<Rightarrow> real \<Rightarrow> npfloat" where
  "rnd neg x =
     (let e = rexp x; M = rhe (x / 2 powr real_of_int e)
      in if M = 2 ^ 53 then (if 971 < e + 1 then make_inf neg else Fin neg (2 ^ 52) (e + 1))
         else if 971 < e then make_inf neg else Fin neg M e)"

section \<open>The notebook's namespace and its external modules\<close>

text \<open>
  The notebook has no functions: its cells assign global variables in order. The namespace
  is a record with one field per variable, and a cell is a function from namespace to
  namespace. Cell 2 assigns the inputs; the later cells are stated for any values of them.
\<close>

record nb =
  windspeed :: npfloat
  airTemperature :: npfloat
  relativeHumidity :: npfloat
  bulkSST :: npfloat
  latitude :: npfloat
  MSLP :: npfloat
  Hs :: npfloat
  rain :: npfloat
  mastHeight :: npfloat
  cloudCover :: npfloat
  QswIdeal :: npfloat
  surfaceSalinity :: npfloat
  dBar :: npfloat
  g :: npfloat
  rho0 :: npfloat
  Cfrac :: npfloat
  albedo :: npfloat
  Qshortwave :: npfloat
  tau :: npfloat
  Qsensible :: npfloat
  Qlatent :: npfloat
  LWnet :: npfloat
  QnetMinusSW :: npfloat
  evaporation :: npfloat
  alpha :: npfloat
  beta :: npfloat
  Cp :: npfloat
  evap :: npfloat
  precip :: npfloat
  Qnet :: npfloat
  Ft :: npfloat
  Fs :: npfloat
  Qp :: npfloat
  Bf :: npfloat
  ustar :: npfloat
  kappa :: npfloat
  L :: npfloat

text \<open>
  The arguments of the call \<^verbatim>\<open>coare35vn.coare35vn(u, t, rh, ts, P=, Rs=, sigH=, zu=, zt=, zq=, lat=)\<close>.
\<close>

record coare_args =
  arg_u :: npfloat
  arg_t :: npfloat
  arg_rh :: npfloat
  arg_ts :: npfloat
  kw_P :: npfloat
  kw_Rs :: npfloat
  kw_sigH :: npfloat
  kw_zu :: npfloat
  kw_zt :: npfloat
  kw_zq :: npfloat
  kw_lat :: npfloat

text \<open>
  The modules \<^verbatim>\<open>coare35vn\<close> and \<^verbatim>\<open>gsw\<close> are imported, not part of the notebook: they are
  parameters of the model, and so is the C library's \<^verbatim>\<open>pow\<close>. \<open>coare35vn\<close> stands for the
  first row \<^verbatim>\<open>A[0]\<close> of the returned array, which the notebook unpacks into six names. The
  variables of cell 2 are Python floats; what \<^verbatim>\<open>coare35vn\<close> and \<^verbatim>\<open>gsw\<close> return are NumPy
  \<^verbatim>\<open>float64\<close> numbers, and so is every result computed from them.
\<close>

record libs =
  coare35vn :: "coare_args \<Rightarrow> npfloat \<times> npfloat \<times> npfloat \<times> npfloat \<times> npfloat \<times> npfloat"
  gsw_alpha :: "npfloat \<Rightarrow> npfloat \<Rightarrow> npfloat \<Rightarrow> npfloat"
  gsw_beta :: "npfloat \<Rightarrow> npfloat \<Rightarrow> npfloat \<Rightarrow> npfloat"
  gsw_cp_t_exact :: "npfloat \<Rightarrow> npfloat \<Rightarrow> npfloat \<Rightarrow> npfloat"
  c_pow :: "npfloat \<Rightarrow> nat \<Rightarrow> npfloat"

section \<open>The cells\<close>

text \<open>Cell 2: the input data of the reference example.\<close>

definition cell2 :: "nb \<Rightarrow> nb" where
  "cell2 s = s\<lparr>windspeed := dec 54 10, airTemperature := dec 78 10,
      relativeHumidity := dec 50 1, bulkSST := dec 74 10, latitude := dec 599 10,
      MSLP := dec 10111 10, Hs := dec 2 10, rain := dec 0 1, mastHeight := dec 8 1,
      cloudCover := dec 7 1, QswIdeal := dec 970 1, surfaceSalinity := dec 23 1,
      dBar := dec 1 10, g := dec 981 100, rho0 := dec 1025 1\<rparr>"

text \<open>
  Cell 3, first three statements:
  \<^verbatim>\<open>Cfrac = cloudCover/8.0\<close>,
  \<^verbatim>\<open>albedo = 0.06\<close>,
  \<^verbatim>\<open>Qshortwave = (1.0-albedo)*QswIdeal*(1-Cfrac**3)\<close>.
  All operands are Python floats, so \<^verbatim>\<open>Cfrac**3\<close> can raise \<^verbatim>\<open>OverflowError\<close>; the cell then
  stops and \<open>Qshortwave\<close> is not assigned.
\<close>

definition shortwave :: "libs \<Rightarrow> nb \<Rightarrow> failure + nb" where
  "shortwave ext s =
     (let s1 = s\<lparr>Cfrac := fl_div (cloudCover s) (dec 8 1)\<rparr>;
          s2 = s1\<lparr>albedo := dec 6 100\<rparr>
      in case py_pow (c_pow ext) (Cfrac s2) 3 of
           Inl err \<Rightarrow> Inl err
         | Inr cube \<Rightarrow>
             Inr (s2\<lparr>Qshortwave :=
                    fl_mul (fl_mul (fl_sub (dec 1 1) (albedo s2)) (QswIdeal s2))
                           (fl_sub (dec 1 1) cube)\<rparr>))"

text \<open>
  Cell 3, the call of the bulk flux algorithm and the unpacking of its first row:
  \<^verbatim>\<open>A = coare35vn.coare35vn(windspeed, airTemperature, relativeHumidity, bulkSST, P=MSLP,
  Rs=Qshortwave, sigH = Hs, zu=mastHeight, zt=mastHeight, zq=mastHeight, lat=latitude)\<close>,
  \<^verbatim>\<open>tau, Qsensible, Qlatent, LWnet, QnetMinusSW, evaporation = A[0].T\<close>.
\<close>

definition bulk_args :: "nb \<Rightarrow> coare_args" where
  "bulk_args s = \<lparr>arg_u = windspeed s, arg_t = airTemperature s, arg_rh = relativeHumidity s,
      arg_ts = bulkSST s, kw_P = MSLP s, kw_Rs = Qshortwave s, kw_sigH = Hs s,
      kw_zu = mastHeight s, kw_zt = mastHeight s, kw_zq = mastHeight s, kw_lat = latitude s\<rparr>"

definition bulk_fluxes :: "libs \<Rightarrow> nb \<Rightarrow> nb" where
  "bulk_fluxes ext s =
     (case coare35vn ext (bulk_args s) of
        (a0, a1, a2, a3, a4, a5) \<Rightarrow>
          s\<lparr>tau := a0, Qsensible := a1, Qlatent := a2, LWnet := a3, QnetMinusSW := a4,
            evaporation := a5\<rparr>)"

definition cell3 :: "libs \<Rightarrow> nb \<Rightarrow> failure + nb" where
  "cell3 ext s = (case shortwave ext s of Inl err \<Rightarrow> Inl err | Inr s' \<Rightarrow> Inr (bulk_fluxes ext s'))"

text \<open>
  Cell 4:
  \<^verbatim>\<open>alpha = gsw.alpha(surfaceSalinity, bulkSST, dBar)\<close>,
  \<^verbatim>\<open>beta = gsw.beta(surfaceSalinity, bulkSST, dBar)\<close>,
  \<^verbatim>\<open>Cp = gsw.cp_t_exact(surfaceSalinity, bulkSST, dBar)\<close>.
\<close>

definition cell4 :: "libs \<Rightarrow> nb \<Rightarrow> nb" where
  "cell4 ext s =
     s\<lparr>alpha := gsw_alpha ext (surfaceSalinity s) (bulkSST s) (dBar s),
       beta := gsw_beta ext (surfaceSalinity s) (bulkSST s) (dBar s),
       Cp := gsw_cp_t_exact ext (surfaceSalinity s) (bulkSST s) (dBar s)\<rparr>"

text \<open>
  Cell 5, the density flux:
  \<^verbatim>\<open>evap = evaporation/3600.\<close>,
  \<^verbatim>\<open>precip = rain/3600.\<close>,
  \<^verbatim>\<open>Qnet = -QnetMinusSW + Qshortwave\<close>,
  \<^verbatim>\<open>Ft = -Qnet/(rho0*Cp)\<close>,
  \<^verbatim>\<open>Fs = (evap-precip)/(1-surfaceSalinity/1000)\<close>,
  \<^verbatim>\<open>Qp = rho0*(alpha*Ft + beta*Fs)\<close>.
  Every division has a \<^verbatim>\<open>float64\<close> operand or a nonzero literal divisor: none raises.
\<close>

definition cell5 :: "nb \<Rightarrow> nb" where
  "cell5 s =
     (let s1 = s\<lparr>evap := fl_div (evaporation s) (dec 3600 1)\<rparr>;
          s2 = s1\<lparr>precip := fl_div (rain s1) (dec 3600 1)\<rparr>;
          s3 = s2\<lparr>Qnet := fl_add (fl_neg (QnetMinusSW s2)) (Qshortwave s2)\<rparr>;
          s4 = s3\<lparr>Ft := fl_div (fl_neg (Qnet s3)) (fl_mul (rho0 s3) (Cp s3))\<rparr>;
          s5 = s4\<lparr>Fs := fl_div (fl_sub (evap s4) (precip s4))
                             (fl_sub (dec 1 1) (fl_div (surfaceSalinity s4) (dec 1000 1)))\<rparr>
      in s5\<lparr>Qp := fl_mul (rho0 s5)
                      (fl_add (fl_mul (alpha s5) (Ft s5)) (fl_mul (beta s5) (Fs s5)))\<rparr>)"

text \<open>
  Cell 6, buoyancy flux and Obukhov length:
  \<^verbatim>\<open>Bf = -g*Qp/rho0\<close>,
  \<^verbatim>\<open>ustar = np.sqrt(tau/rho0)\<close>,
  \<^verbatim>\<open>kappa = 0.4\<close>,
  \<^verbatim>\<open>L = -ustar**3/(kappa*Bf)\<close>.
  Python reads \<^verbatim>\<open>-g*Qp/rho0\<close> as \<^verbatim>\<open>((-g)*Qp)/rho0\<close> and \<^verbatim>\<open>-ustar**3\<close> as \<^verbatim>\<open>-(ustar**3)\<close>.
  \<open>Qp\<close>, \<open>tau\<close> and \<open>ustar\<close> are \<^verbatim>\<open>float64\<close> numbers: no statement raises.
\<close>

definition cell6 :: "libs \<Rightarrow> nb \<Rightarrow> nb" where
  "cell6 ext s =
     (let s1 = s\<lparr>Bf := fl_div (fl_mul (fl_neg (g s)) (Qp s)) (rho0 s)\<rparr>;
          s2 = s1\<lparr>ustar := fl_sqrt (fl_div (tau s1) (rho0 s1))\<rparr>;
          s3 = s2\<lparr>kappa := dec 4 10\<rparr>
      in s3\<lparr>L := fl_div (fl_neg (fl_pow (c_pow ext) (ustar s3) 3))
                    (fl_mul (kappa s3) (Bf s3))\<rparr>)"

text \<open>
  Cell 7 prints six lines under the heading "Summary of fluxes defined as positive into the
  ocean". The record holds, line by line, the number handed to the format operator:
  \<^verbatim>\<open>-Qsensible\<close>, \<^verbatim>\<open>-Qlatent\<close>, \<^verbatim>\<open>-LWnet\<close>, \<^verbatim>\<open>Qnet\<close>, \<^verbatim>\<open>Bf\<close>, \<^verbatim>\<open>L\<close>.
\<close>

record summary =
  sensible_heat_flux :: npfloat
  latent_heat_flux :: npfloat
  net_longwave_radiation :: npfloat
  net_heat_flux :: npfloat
  buoyancy_flux :: npfloat
  obukhov_length :: npfloat

definition cell7 :: "nb \<Rightarrow> summary" where
  "cell7 s = \<lparr>sensible_heat_flux = fl_neg (Qsensible s), latent_heat_flux = fl_neg (Qlatent s),
      net_longwave_radiation = fl_neg (LWnet s), net_heat_flux = Qnet s,
      buoyancy_flux = Bf s, obukhov_length = L s\<rparr>"

text \<open>The cells after the input cell, run in order; an exception in cell 3 ends the run.\<close>

definition pipeline :: "libs \<Rightarrow> nb \<Rightarrow> failure + nb" where
  "pipeline ext s =
     (case cell3 ext s of
        Inl err \<Rightarrow> Inl err
      | Inr s3 \<Rightarrow> Inr (cell6 ext (cell5 (cell4 ext s3))))"

definition report :: "libs \<Rightarrow> nb \<Rightarrow> failure + summary" where
  "report ext s = (case pipeline ext s of Inl err \<Rightarrow> Inl err | Inr p \<Rightarrow> Inr (cell7 p))"

section \<open>The stages as the specification words them\<close>

text \<open>
  The specification describes the cells as functions (sections 4.1, 4.4 and 4.5). These
  definitions follow its words, each formula evaluated in binary64 in the order it is
  written; the notebook is compared with them below.
\<close>

definition spec_estimate_net_shortwave ::
  "(npfloat \<Rightarrow> nat \<Rightarrow> npfloat) \<Rightarrow> npfloat \<Rightarrow> npfloat \<Rightarrow> npfloat \<Rightarrow> failure + npfloat" where
  "spec_estimate_net_shortwave cpow cloudCoverOktas clearSkyIrradiance albedo' =
     (if fl_le (dec 0 1) cloudCoverOktas \<and> fl_le cloudCoverOktas (dec 8 1)
      then (let cloudFraction = fl_div cloudCoverOktas (dec 8 1)
            in Inr (fl_mul (fl_mul (fl_sub (dec 1 1) albedo') clearSkyIrradiance)
                           (fl_sub (dec 1 1) (fl_pow cpow cloudFraction 3))))
      else Inl InvalidInput)"

definition spec_compute_density_flux ::
  "npfloat \<Rightarrow> npfloat \<Rightarrow> npfloat \<Rightarrow> npfloat \<Rightarrow> npfloat \<Rightarrow> npfloat \<times> npfloat \<times> npfloat \<Rightarrow> npfloat
     \<Rightarrow> npfloat \<times> npfloat" where
  "spec_compute_density_flux evaporationRate rainRate QnetMinusSW' netShortwave salinity
       coefficients referenceDensity =
     (case coefficients of
        (alpha', beta', Cp') \<Rightarrow>
          (let evaporation' = fl_div evaporationRate (dec 3600 1);
               precipitation = fl_div rainRate (dec 3600 1);
               Qnet' = fl_add (fl_neg QnetMinusSW') netShortwave;
               Ft' = fl_div (fl_neg Qnet') (fl_mul referenceDensity Cp');
               Fs' = fl_div (fl_sub evaporation' precipitation)
                            (fl_sub (dec 1 1) (fl_div salinity (dec 1000 1)));
               Qp' = fl_mul referenceDensity (fl_add (fl_mul alpha' Ft') (fl_mul beta' Fs'))
           in (Qnet', Qp')))"

text \<open>
  \<open>compute_obukhov\<close> on the inputs for which the specification gives formulas (\<open>tau \<ge> 0\<close>, a
  nonzero \<open>vonKarman * Bf\<close>): the buoyancy flux, the friction velocity and the Obukhov length.
\<close>

definition spec_compute_obukhov ::
  "(npfloat \<Rightarrow> nat \<Rightarrow> npfloat) \<Rightarrow> npfloat \<Rightarrow> npfloat \<Rightarrow> npfloat \<Rightarrow> npfloat \<Rightarrow> npfloat
     \<Rightarrow> npfloat \<times> npfloat \<times> npfloat" where
  "spec_compute_obukhov cpow Qp' tau' referenceDensity gravity vonKarman =
     (let Bf' = fl_div (fl_mul (fl_neg gravity) Qp') referenceDensity;
          ustar' = fl_sqrt (fl_div tau' referenceDensity);
          L' = fl_div (fl_neg (fl_pow cpow ustar' 3)) (fl_mul vonKarman Bf')
      in (Bf', ustar', L'))"

section \<open>Example namespaces\<close>

text \<open>A namespace in which no cell has run yet; every example assigns what it reads.\<close>

definition nb0 :: nb where
  "nb0 = \<lparr>windspeed = NaN, airTemperature = NaN, relativeHumidity = NaN, bulkSST = NaN,
      latitude = NaN, MSLP = NaN, Hs = NaN, rain = NaN, mastHeight = NaN, cloudCover = NaN,
      QswIdeal = NaN, surfaceSalinity = NaN, dBar = NaN, g = NaN, rho0 = NaN, Cfrac = NaN,
      albedo = NaN, Qshortwave = NaN, tau = NaN, Qsensible = NaN, Qlatent = NaN, LWnet = NaN,
      QnetMinusSW = NaN, evaporation = NaN, alpha = NaN, beta = NaN, Cp = NaN, evap = NaN,
      precip = NaN, Qnet = NaN, Ft = NaN, Fs = NaN, Qp = NaN, Bf = NaN, ustar = NaN,
      kappa = NaN, L = NaN\<rparr>"

text \<open>Cloud cover \<open>c\<close> oktas under a clear-sky irradiance \<open>q\<close>, with a value \<open>a\<close> left in \<open>albedo\<close>.\<close>

definition sky :: "npfloat \<Rightarrow> npfloat \<Rightarrow> npfloat \<Rightarrow> nb" where
  "sky c q a = (cell2 nb0)\<lparr>cloudCover := c, QswIdeal := q, albedo := a\<rparr>"

text \<open>The state before cell 5: inputs of cell 2, with values for the outputs of cells 3 and 4.\<close>

definition before_cell5 :: nb where
  "before_cell5 = (cell2 nb0)\<lparr>rain := dec 36 10, Qshortwave := dec 300 1,
      QnetMinusSW := dec 100 1, evaporation := dec 72 10, alpha := dec 2 10000,
      beta := dec 8 10000, Cp := dec 4000 1\<rparr>"

text \<open>The state before cell 6, with a density flux \<open>qp\<close> and a stress \<open>t\<close>.\<close>

definition before_cell6 :: "npfloat \<Rightarrow> npfloat \<Rightarrow> nb" where
  "before_cell6 qp t = (cell2 nb0)\<lparr>Qp := qp, tau := t\<rparr>"

text \<open>
  External modules standing for the run recorded in the notebook: whatever they are given,
  they return turbulent fluxes that print as the recorded summary does (4.07, -57.00 and
  18.35 W/m2); the stress, the evaporation and the seawater coefficients are placeholders,
  and \<^verbatim>\<open>pow\<close> is the correctly rounded one.
\<close>

definition stub_libs :: libs where
  "stub_libs =
     \<lparr>coare35vn = (\<lambda>args. (dec 3 100, fl_neg (dec 407 100), dec 57 1, fl_neg (dec 1835 100),
                             dec 34585 1000, dec 8 100)),
      gsw_alpha = (\<lambda>sa t p. dec 1 10000), gsw_beta = (\<lambda>sa t p. dec 8 10000),
      gsw_cp_t_exact = (\<lambda>sa t p. dec 4000 1), c_pow = cr_pow\<rparr>"

section \<open>Rounding: the unit conversion bit by bit\<close>

text \<open>
  The statements \<^verbatim>\<open>evap = evaporation/3600.\<close> and \<^verbatim>\<open>precip = rain/3600.\<close> divide binary64
  numbers, and the result is rounded to 53 significant bits, to nearest with ties to even.
  For a question of exactness the rounding is modelled as the hardware does it. A normal
  binary64 number is a sign bit, a mantissa \<open>m\<close> with \<open>2^52 \<le> m < 2^53\<close> and an exponent \<open>e\<close>
  with \<open>-1074 \<le> e \<le> 971\<close>; it stands for \<open>\<plusminus> m * 2^e\<close>.
\<close>

type_synonym b64 = "bool \<times> int \<times> int"

fun b64_normal :: "b64 \<Rightarrow> bool" where
  "b64_normal (s, m, e) = (2 ^ 52 \<le> m \<and> m < 2 ^ 53 \<and> - 1074 \<le> e \<and> e \<le> 971)"

fun b64_val :: "b64 \<Rightarrow> real" where
  "b64_val (s, m, e) = (if s then - 1 else 1) * real_of_int m * 2 powr real_of_int e"

text \<open>A mantissa rounded up to \<open>2^53\<close> is the next power of two.\<close>

fun b64_norm :: "b64 \<Rightarrow> b64" where
  "b64_norm (s, m, e) = (if m = 2 ^ 53 then (s, 2 ^ 52, e + 1) else (s, m, e))"

text \<open>
  Quotient and product of normal numbers, correctly rounded (exponent range unchecked: a
  result is a binary64 number when it is \<open>b64_normal\<close>).
\<close>

fun b64_div :: "b64 \<Rightarrow> b64 \<Rightarrow> b64" where
  "b64_div (s1, m1, e1) (s2, m2, e2) =
     (if m2 \<le> m1 then b64_norm (s1 \<noteq> s2, rne (m1 * 2 ^ 52) m2, e1 - e2 - 52)
      else b64_norm (s1 \<noteq> s2, rne (m1 * 2 ^ 53) m2, e1 - e2 - 53))"

fun b64_mul :: "b64 \<Rightarrow> b64 \<Rightarrow> b64" where
  "b64_mul (s1, m1, e1) (s2, m2, e2) =
     (if m1 * m2 < 2 ^ 105 then b64_norm (s1 \<noteq> s2, rne (m1 * m2) (2 ^ 52), e1 + e2 + 52)
      else b64_norm (s1 \<noteq> s2, rne (m1 * m2) (2 ^ 53), e1 + e2 + 53))"

text \<open>The literal \<^verbatim>\<open>3600.\<close>: \<open>3600 = (3600 * 2^41) * 2^-41\<close>.\<close>

definition b64_3600 :: b64 where
  "b64_3600 = (False, 3600 * 2 ^ 41, - 41)"

text \<open>
  The conversion of cell 5 from mm/hour to kg/s/m2, \<^verbatim>\<open>x/3600.\<close>, and the inverse the
  specification composes it with, \<^verbatim>\<open>y*3600.\<close>.
\<close>

definition to_kg_per_s_m2 :: "b64 \<Rightarrow> b64" where
  "to_kg_per_s_m2 x = b64_div x b64_3600"

definition to_mm_per_hour :: "b64 \<Rightarrow> b64" where
  "to_mm_per_hour y = b64_mul y b64_3600"

text \<open>The rates \<^verbatim>\<open>57.0\<close> and \<^verbatim>\<open>7.0\<close> mm/hour.\<close>

definition b64_57 :: b64 where
  "b64_57 = (False, 57 * 2 ^ 47, - 47)"

definition b64_7 :: b64 where
  "b64_7 = (False, 7 * 2 ^ 50, - 50)"

section \<open>Facts about the arithmetic\<close>

text \<open>
  Rounding gives a finite float of the sign asked for, or the infinity of that sign; never
  \<open>NaN\<close>.
\<close>

lemma round_q_cases:
  "round_q neg n d k = make_inf neg \<or> (\<exists>M e. round_q neg n d k = Fin neg M e)"
  by (auto simp: round_q_def Let_def)

lemma round_q_not_NaN: "round_q neg n d k \<noteq> NaN"
  using round_q_cases [of neg n d k] by (cases neg) (auto simp: make_inf_def)

lemma negative_round_q: "negative (round_q neg n d k) = neg"
  using round_q_cases [of neg n d k] by (cases neg) (auto simp: make_inf_def)

text \<open>
  The literals \<^verbatim>\<open>0.4\<close> and \<^verbatim>\<open>1.0\<close> as binary64
  numbers.
\<close>

lemma kappa_literal: "dec 4 10 = Fin False 7205759403792794 (- 54)"
  by code_simp

lemma one_literal: "dec 1 1 = Fin False (2 ^ 52) (- 52)"
  by code_simp

text \<open>
  Products and quotients in which a zero takes part (NumPy does not raise on a division by zero).
\<close>

lemma fl_mul_zero_right:
  "is_finite a \<Longrightarrow> is_zero b \<Longrightarrow> fl_mul a b = make_zero (negative a \<noteq> negative b)"
  by (cases a; cases b) (auto simp: fl_mul_def)

lemma fl_div_by_zero:
  "is_zero b \<Longrightarrow>
   fl_div a b = (if a = NaN \<or> is_zero a then NaN else make_inf (negative a \<noteq> negative b))"
  by (cases a; cases b) (auto simp: fl_div_def)

lemma fl_div_finite:
  "is_finite a \<Longrightarrow> is_finite b \<Longrightarrow> \<not> is_zero a \<Longrightarrow> \<not> is_zero b \<Longrightarrow>
   fl_div a b = round_q (negative a \<noteq> negative b) (mant a) (mant b) (expo a - expo b)"
  by (cases a; cases b) (auto simp: fl_div_def)

lemma fl_div_zero_left:
  "is_zero a \<Longrightarrow> is_finite b \<Longrightarrow> \<not> is_zero b \<Longrightarrow>
   fl_div a b = make_zero (negative a \<noteq> negative b)"
  by (cases a; cases b) (auto simp: fl_div_def)

lemma fl_div_NaN_left: "fl_div NaN b = NaN"
  by (simp add: fl_div_def)

section \<open>Rounding to nearest\<close>

text \<open>
  The literal \<^verbatim>\<open>0.06\<close>.
\<close>

lemma albedo_literal: "dec 6 100 = Fin False 8646911284551352 (- 57)"
  by code_simp

text \<open>
  The integer division with rounding of the model is the rounding of the real quotient.
\<close>

lemma rne_rhe:
  assumes "0 < b"
  shows "rne a b = rhe (real_of_int a / real_of_int b)"
proof -
  have fl: "\<lfloor>real_of_int a / real_of_int b\<rfloor> = a div b"
    by (simp add: floor_divide_of_int_eq)
  have fr: "real_of_int a / real_of_int b - real_of_int (a div b) = real_of_int (a mod b) / real_of_int b"
    using assms by (simp add: field_simps of_int_mult [symmetric] of_int_add [symmetric]
        del: of_int_mult of_int_add)
  have lt: "(real_of_int (a mod b) / real_of_int b < 1 / 2) = (2 * (a mod b) < b)"
    using assms by (simp add: field_simps) (metis of_int_less_iff of_int_mult of_int_numeral mult.commute)
  have gt: "(1 / 2 < real_of_int (a mod b) / real_of_int b) = (b < 2 * (a mod b))"
    using assms by (simp add: field_simps) (metis of_int_less_iff of_int_mult of_int_numeral mult.commute)
  show ?thesis
    unfolding rne_def rhe_def Let_def fl fr lt gt by simp
qed

lemma rhe_int: "rhe (real_of_int k) = k"
  by (simp add: rhe_def)

lemma rhe_bounds: "\<lfloor>x\<rfloor> \<le> rhe x" "rhe x \<le> \<lfloor>x\<rfloor> + 1"
  by (simp_all add: rhe_def)

lemma rhe_mono:
  assumes "x \<le> y"
  shows "rhe x \<le> rhe y"
proof (cases "\<lfloor>x\<rfloor> = \<lfloor>y\<rfloor>")
  case True
  then show ?thesis using assms by (auto simp: rhe_def)
next
  case False
  then have "\<lfloor>x\<rfloor> < \<lfloor>y\<rfloor>" using assms floor_mono [of x y] by linarith
  then show ?thesis using rhe_bounds(2) [of x] rhe_bounds(1) [of y] by linarith
qed

text \<open>
  The exponent of the leading bit, from the bit lengths.
\<close>

lemma pow2_powr: "0 \<le> i \<Longrightarrow> real_of_int (2 ^ nat i) = 2 powr real_of_int i"
proof -
  assume "0 \<le> i"
  then have "2 powr real_of_int i = 2 powr real (nat i)" by simp
  also have "\<dots> = 2 ^ nat i" by (simp add: powr_realpow)
  finally show ?thesis by simp
qed

lemma bitlen_real_bounds:
  assumes "0 < n"
  shows "2 powr (real_of_int (bitlen n) - 1) \<le> real_of_int n"
    and "real_of_int n < 2 powr real_of_int (bitlen n)"
proof -
  have b1: "1 \<le> bitlen n" using assms by (simp add: bitlen_alt_def)
  have lo: "2 ^ nat (bitlen n - 1) \<le> n" and hi: "n < 2 ^ nat (bitlen n)"
    using bitlen_bounds [OF assms] by simp_all
  have e1: "real_of_int (2 ^ nat (bitlen n - 1)) = 2 powr (real_of_int (bitlen n) - 1)"
    using pow2_powr [of "bitlen n - 1"] b1 by simp
  have e2: "real_of_int (2 ^ nat (bitlen n)) = 2 powr real_of_int (bitlen n)"
    using pow2_powr [of "bitlen n"] b1 by simp
  have "real_of_int (2 ^ nat (bitlen n - 1)) \<le> real_of_int n"
    using lo by (simp only: of_int_le_iff)
  then show "2 powr (real_of_int (bitlen n) - 1) \<le> real_of_int n"
    unfolding e1 .
  have "real_of_int n < real_of_int (2 ^ nat (bitlen n))"
    using hi by (simp only: of_int_less_iff)
  then show "real_of_int n < 2 powr real_of_int (bitlen n)"
    unfolding e2 .
qed

lemma lead_exp_bounds:
  assumes "0 < n" and "0 < d"
  shows "2 powr real_of_int (lead_exp n d) \<le> real_of_int n / real_of_int d"
    and "real_of_int n / real_of_int d < 2 powr (real_of_int (lead_exp n d) + 1)"
proof -
  define b where "b = bitlen n - bitlen d"
  define N where "N = real_of_int n"
  define D where "D = real_of_int d"
  have N: "0 < N" and D: "0 < D" using assms by (simp_all add: N_def D_def)
  have Nlo: "2 powr (real_of_int (bitlen n) - 1) \<le> N"
    and Nhi: "N < 2 powr real_of_int (bitlen n)"
    unfolding N_def using bitlen_real_bounds [OF assms(1)] by simp_all
  have Dlo: "2 powr (real_of_int (bitlen d) - 1) \<le> D"
    and Dhi: "D < 2 powr real_of_int (bitlen d)"
    unfolding D_def using bitlen_real_bounds [OF assms(2)] by simp_all
  have "N * 2 powr (real_of_int (bitlen d) - 1) < 2 powr real_of_int (bitlen n) * D"
    using Nhi Dlo N D by (intro mult_less_le_imp_less) simp_all
  then have "N / D < 2 powr real_of_int (bitlen n) / 2 powr (real_of_int (bitlen d) - 1)"
    using D by (simp add: field_simps)
  also have "\<dots> = 2 powr (real_of_int (bitlen n) - (real_of_int (bitlen d) - 1))"
    by (simp only: powr_diff)
  also have "real_of_int (bitlen n) - (real_of_int (bitlen d) - 1) = real_of_int b + 1"
    by (simp add: b_def)
  finally have up: "N / D < 2 powr (real_of_int b + 1)" .
  have "2 powr (real_of_int (bitlen n) - 1) * D < N * 2 powr real_of_int (bitlen d)"
    using Nlo Dhi N D by (intro mult_le_less_imp_less) simp_all
  then have "2 powr (real_of_int (bitlen n) - 1) / 2 powr real_of_int (bitlen d) < N / D"
    using D by (simp add: field_simps)
  moreover have "2 powr (real_of_int (bitlen n) - 1) / 2 powr real_of_int (bitlen d)
      = 2 powr (real_of_int (bitlen n) - 1 - real_of_int (bitlen d))"
    by (simp only: powr_diff)
  moreover have "real_of_int (bitlen n) - 1 - real_of_int (bitlen d) = real_of_int b - 1"
    by (simp add: b_def)
  ultimately have low: "2 powr (real_of_int b - 1) < N / D" by simp
  have test: "(if 0 \<le> b then d * 2 ^ nat b \<le> n else d \<le> n * 2 ^ nat (- b))
      = (2 powr real_of_int b \<le> N / D)"
  proof (cases "0 \<le> b")
    case True
    have "(d * 2 ^ nat b \<le> n) = (real_of_int (d * 2 ^ nat b) \<le> real_of_int n)"
      by (simp only: of_int_le_iff)
    also have "\<dots> = (D * 2 powr real_of_int b \<le> N)"
      using pow2_powr [OF True] by (simp add: N_def D_def)
    also have "\<dots> = (2 powr real_of_int b \<le> N / D)"
      using D by (simp add: field_simps)
    finally show ?thesis using True by simp
  next
    case False
    then have nb: "0 \<le> - b" by simp
    have "(d \<le> n * 2 ^ nat (- b)) = (real_of_int d \<le> real_of_int (n * 2 ^ nat (- b)))"
      by (simp only: of_int_le_iff)
    also have "\<dots> = (D \<le> N * 2 powr (- real_of_int b))"
      using pow2_powr [OF nb] by (simp add: N_def D_def)
    also have "\<dots> = (2 powr real_of_int b \<le> N / D)"
      using D by (simp add: field_simps powr_minus)
    finally show ?thesis using False by simp
  qed
  have le: "lead_exp n d = (if 2 powr real_of_int b \<le> N / D then b else b - 1)"
    unfolding lead_exp_def Let_def b_def [symmetric] test ..
  show "2 powr real_of_int (lead_exp n d) \<le> real_of_int n / real_of_int d"
    unfolding N_def [symmetric] D_def [symmetric] le using low by auto
  have "N / D < 2 powr (real_of_int (b - 1) + 1)" if "\<not> 2 powr real_of_int b \<le> N / D"
    using that by simp
  then show "real_of_int n / real_of_int d < 2 powr (real_of_int (lead_exp n d) + 1)"
    unfolding N_def [symmetric] D_def [symmetric] le using up by auto
qed

text \<open>
  The exponent of the last kept bit: where it lies, that this determines it, and that it grows with
  the number.
\<close>

lemma rexp_props:
  assumes "0 < x"
  shows "- 1074 \<le> rexp x" and "x < 2 powr (real_of_int (rexp x) + 53)"
    and "rexp x = - 1074 \<or> 2 powr (real_of_int (rexp x) + 52) \<le> x"
proof -
  define E where "E = \<lfloor>log 2 x\<rfloor>"
  have r: "rexp x = max (E - 52) (- 1074)" using assms by (simp add: rexp_def E_def)
  have "real_of_int E \<le> log 2 x" by (simp add: E_def)
  then have lo: "2 powr real_of_int E \<le> x" using assms by (simp add: le_log_iff)
  have "log 2 x < real_of_int E + 1" by (simp add: E_def)
  then have hi: "x < 2 powr (real_of_int E + 1)" using assms by (simp add: log_less_iff)
  show "- 1074 \<le> rexp x" by (simp add: r)
  have "real_of_int E + 1 \<le> real_of_int (rexp x) + 53" by (simp add: r)
  then have "2 powr (real_of_int E + 1) \<le> 2 powr (real_of_int (rexp x) + 53)"
    by simp
  then show "x < 2 powr (real_of_int (rexp x) + 53)" using hi by linarith
  show "rexp x = - 1074 \<or> 2 powr (real_of_int (rexp x) + 52) \<le> x"
  proof (cases "rexp x = - 1074")
    case False
    then have "rexp x = E - 52" by (simp add: r max_def split: if_splits)
    then have "real_of_int (rexp x) + 52 = real_of_int E" by simp
    then show ?thesis using lo by simp
  qed simp
qed

lemma rexp_unique:
  assumes "0 < x" and "- 1074 \<le> e" and "x < 2 powr (real_of_int e + 53)"
    and "e = - 1074 \<or> 2 powr (real_of_int e + 52) \<le> x"
  shows "rexp x = e"
proof -
  define E where "E = \<lfloor>log 2 x\<rfloor>"
  have r: "rexp x = max (E - 52) (- 1074)" using assms(1) by (simp add: rexp_def E_def)
  have "log 2 x < real_of_int e + 53" using assms(1,3) by (simp add: log_less_iff)
  then have "log 2 x < real_of_int (e + 53)" by simp
  then have "E < e + 53" unfolding E_def by (simp only: floor_less_iff)
  then have up: "E - 52 \<le> e" by simp
  show ?thesis
  proof (cases "e = - 1074")
    case True
    then show ?thesis using up by (simp add: r)
  next
    case False
    then have "2 powr (real_of_int e + 52) \<le> x" using assms(4) by simp
    then have "real_of_int e + 52 \<le> log 2 x" using assms(1) by (simp add: le_log_iff)
    then have "real_of_int (e + 52) \<le> log 2 x" by simp
    then have "e + 52 \<le> E" unfolding E_def by (simp only: le_floor_iff)
    then show ?thesis using up assms(2) by (simp add: r)
  qed
qed

lemma rexp_mono:
  assumes "0 \<le> x" and "x \<le> y"
  shows "rexp x \<le> rexp y"
proof (cases "0 < x")
  case True
  then have "log 2 x \<le> log 2 y" using assms by simp
  then have "\<lfloor>log 2 x\<rfloor> \<le> \<lfloor>log 2 y\<rfloor>" by (rule floor_mono)
  then show ?thesis using True assms by (simp add: rexp_def)
next
  case False
  then show ?thesis by (simp add: rexp_def)
qed

lemma rhe_nonneg: "0 \<le> x \<Longrightarrow> 0 \<le> rhe x"
  using rhe_mono [of 0 x] rhe_int [of 0] by simp

lemma rval_zero: "rval 0 = 0"
  using rhe_int [of 0] by (simp add: rval_def)

lemma rnd_zero: "rnd neg 0 = make_zero neg"
  using rhe_int [of 0] by (simp add: rnd_def rexp_def make_zero_def)

lemma rval_nonneg: "0 \<le> x \<Longrightarrow> 0 \<le> rval x"
  by (simp add: rval_def rhe_nonneg)

text \<open>The rounded mantissa.\<close>

lemma mantissa_bounds:
  assumes "0 \<le> x"
  shows "0 \<le> rhe (x / 2 powr real_of_int (rexp x))"
    and "rhe (x / 2 powr real_of_int (rexp x)) \<le> 2 ^ 53"
    and "rexp x = - 1074 \<or> 2 ^ 52 \<le> rhe (x / 2 powr real_of_int (rexp x))"
    and "- 1074 \<le> rexp x"
proof -
  define e where "e = rexp x"
  show "0 \<le> rhe (x / 2 powr real_of_int (rexp x))"
    using assms by (simp add: rhe_nonneg)
  show e: "- 1074 \<le> rexp x"
    using rexp_props(1) [of x] by (cases "0 < x") (simp_all add: rexp_def)
  have "x < 2 powr (real_of_int e + 53)"
    using rexp_props(2) [of x] assms unfolding e_def by (cases "0 < x") simp_all
  then have "x < 2 powr real_of_int e * 2 powr 53" by (simp add: powr_add)
  then have "x / 2 powr real_of_int e < 2 powr 53" by (simp add: field_simps)
  then have "x / 2 powr real_of_int e \<le> real_of_int (2 ^ 53)" by simp
  then have "rhe (x / 2 powr real_of_int e) \<le> rhe (real_of_int (2 ^ 53))" by (rule rhe_mono)
  then show "rhe (x / 2 powr real_of_int (rexp x)) \<le> 2 ^ 53"
    unfolding e_def rhe_int by simp
  show "rexp x = - 1074 \<or> 2 ^ 52 \<le> rhe (x / 2 powr real_of_int (rexp x))"
  proof (cases "rexp x = - 1074")
    case False
    then have px: "0 < x" by (auto simp: rexp_def split: if_splits)
    have "2 powr (real_of_int e + 52) \<le> x"
      using rexp_props(3) [OF px] False unfolding e_def by simp
    then have "2 powr real_of_int e * 2 powr 52 \<le> x" by (simp add: powr_add)
    then have "2 powr 52 \<le> x / 2 powr real_of_int e" by (simp add: field_simps)
    then have "real_of_int (2 ^ 52) \<le> x / 2 powr real_of_int e" by simp
    then have "rhe (real_of_int (2 ^ 52)) \<le> rhe (x / 2 powr real_of_int e)" by (rule rhe_mono)
    then show ?thesis unfolding e_def rhe_int by simp
  qed simp
qed

lemma powr_int_add: "2 powr (real_of_int e + real k) = 2 powr real_of_int e * 2 ^ k"
  by (simp add: powr_add powr_realpow)

lemma p2_le: "a \<le> b \<Longrightarrow> 2 powr real_of_int a \<le> 2 powr real_of_int b"
  by simp

text \<open>
  The result is finite exactly when the rounded number is below \<open>2^1024\<close>; it is then a
  binary64 number of that value.
\<close>

lemma rnd_finite:
  assumes "0 \<le> x" and "rval x < 2 powr 1024"
  shows "is_finite (rnd neg x)" and "is_b64 (rnd neg x)" and "negative (rnd neg x) = neg"
    and "fval (rnd False x) = rval x"
proof -
  define e where "e = rexp x"
  define M where "M = rhe (x / 2 powr real_of_int e)"
  note mb = mantissa_bounds [OF assms(1), folded e_def, folded M_def]
  have rv: "rval x = real_of_int M * 2 powr real_of_int e"
    by (simp add: rval_def e_def M_def)
  have r: "rnd s x = (if M = 2 ^ 53 then (if 971 < e + 1 then make_inf s else Fin s (2 ^ 52) (e + 1))
         else if 971 < e then make_inf s else Fin s M e)" for s
    by (simp add: rnd_def Let_def e_def M_def)
  have small: "e \<le> 971" if "2 ^ 52 \<le> M"
  proof (rule ccontr)
    assume "\<not> e \<le> 971"
    then have "972 \<le> e" by simp
    then have "2 powr 972 \<le> 2 powr real_of_int e" using p2_le [of 972 e] by simp
    moreover have "(2::real) ^ 52 \<le> real_of_int M" using that by (simp add: of_int_le_iff [symmetric] del: of_int_le_iff)
    ultimately have "2 ^ 52 * 2 powr 972 \<le> real_of_int M * 2 powr real_of_int e"
      by (intro mult_mono) simp_all
    moreover have "(2::real) ^ 52 * 2 powr 972 = 2 powr 1024"
      using powr_int_add [of 972 52] by simp
    ultimately show False using assms(2) rv by simp
  qed
  have e971: "e \<le> 971"
    using small mb(3) by auto
  have e970: "e + 1 \<le> 971" if "M = 2 ^ 53"
  proof (rule ccontr)
    assume "\<not> e + 1 \<le> 971"
    then have "971 \<le> e" by simp
    then have "2 powr 971 \<le> 2 powr real_of_int e" using p2_le [of 971 e] by simp
    then have "2 ^ 53 * 2 powr 971 \<le> real_of_int M * 2 powr real_of_int e"
      using that by simp
    moreover have "(2::real) ^ 53 * 2 powr 971 = 2 powr 1024"
      using powr_int_add [of 971 53] by simp
    ultimately show False using assms(2) rv by simp
  qed
  show "is_finite (rnd neg x)" using e971 e970 by (auto simp: r)
  show "negative (rnd neg x) = neg" using e971 e970 by (auto simp: r)
  show "is_b64 (rnd neg x)" using e971 e970 mb by (auto simp: r)
  have "2 powr (real_of_int e + 1) = 2 powr real_of_int e * 2"
    using powr_int_add [of e 1] by simp
  then show "fval (rnd False x) = rval x"
    using e971 e970 by (auto simp: r rv)
qed

lemma rnd_overflow:
  assumes "0 \<le> x" and "2 powr 1024 \<le> rval x"
  shows "rnd neg x = make_inf neg"
proof -
  define e where "e = rexp x"
  define M where "M = rhe (x / 2 powr real_of_int e)"
  note mb = mantissa_bounds [OF assms(1), folded e_def, folded M_def]
  have rv: "rval x = real_of_int M * 2 powr real_of_int e"
    by (simp add: rval_def e_def M_def)
  have r: "rnd neg x = (if M = 2 ^ 53 then (if 971 < e + 1 then make_inf neg else Fin neg (2 ^ 52) (e + 1))
         else if 971 < e then make_inf neg else Fin neg M e)"
    by (simp add: rnd_def Let_def e_def M_def)
  have big: "971 < e" if "M < 2 ^ 53"
  proof (rule ccontr)
    assume "\<not> 971 < e"
    then have "e \<le> 971" by simp
    then have le: "2 powr real_of_int e \<le> 2 powr 971" using p2_le [of e 971] by simp
    have "real_of_int M < 2 ^ 53" using that by (simp add: of_int_less_iff [symmetric] del: of_int_less_iff)
    then have "real_of_int M * 2 powr real_of_int e < 2 ^ 53 * 2 powr real_of_int e"
      by simp
    also have "\<dots> \<le> 2 ^ 53 * 2 powr 971" using le by simp
    also have "\<dots> = 2 powr 1024" using powr_int_add [of 971 53] by simp
    finally show False using assms(2) rv by simp
  qed
  have big2: "971 < e + 1" if "M = 2 ^ 53"
  proof (rule ccontr)
    assume "\<not> 971 < e + 1"
    then have "e \<le> 970" by simp
    then have le: "2 powr real_of_int e \<le> 2 powr 970" using p2_le [of e 970] by simp
    have "real_of_int M * 2 powr real_of_int e \<le> 2 ^ 53 * 2 powr 970"
      using that le by simp
    also have "\<dots> = 2 powr 1023" using powr_int_add [of 970 53] by simp
    also have "\<dots> < 2 powr 1024" by simp
    finally show False using assms(2) rv by simp
  qed
  show ?thesis using big big2 mb(2) by (auto simp: r)
qed

lemma rval_unfold: "rval x = real_of_int (rhe (x / 2 powr real_of_int (rexp x))) * 2 powr real_of_int (rexp x)"
  by (simp add: rval_def)

text \<open>
  Rounding is monotone.
\<close>

lemma rval_mono:
  assumes "0 \<le> x" and "x \<le> y"
  shows "rval x \<le> rval y"
proof (cases "0 < x")
  case False
  then have "x = 0" using assms by simp
  then show ?thesis using rval_nonneg [of y] assms by (simp add: rval_zero)
next
  case True
  then have py: "0 < y" using assms by simp
  define ex where "ex = rexp x"
  define ey where "ey = rexp y"
  define Mx where "Mx = rhe (x / 2 powr real_of_int ex)"
  define My where "My = rhe (y / 2 powr real_of_int ey)"
  have rx: "rval x = real_of_int Mx * 2 powr real_of_int ex"
    by (simp add: rval_def ex_def Mx_def)
  have ry: "rval y = real_of_int My * 2 powr real_of_int ey"
    by (simp add: rval_def ey_def My_def)
  have le: "ex \<le> ey" unfolding ex_def ey_def using assms by (rule rexp_mono)
  show ?thesis
  proof (cases "ex = ey")
    case True
    have "x / 2 powr real_of_int ex \<le> y / 2 powr real_of_int ex"
      using assms by (simp add: divide_right_mono)
    then have "Mx \<le> My" unfolding Mx_def My_def True [symmetric] by (rule rhe_mono)
    then have "real_of_int Mx * 2 powr real_of_int ex \<le> real_of_int My * 2 powr real_of_int ex"
      by (simp add: mult_right_mono)
    then show ?thesis unfolding rx ry True .
  next
    case False
    then have lt: "ex < ey" using le by simp
    have "- 1074 \<le> ex" unfolding ex_def using rexp_props(1) [OF True] .
    then have ney: "ey \<noteq> - 1074" using lt by simp
    have "2 ^ 52 \<le> My"
      using mantissa_bounds(3) [of y] py ney unfolding ey_def My_def by simp
    then have "real_of_int (2 ^ 52) \<le> real_of_int My" by (simp only: of_int_le_iff)
    then have "real_of_int (2 ^ 52) * 2 powr real_of_int ey \<le> real_of_int My * 2 powr real_of_int ey"
      by (simp add: mult_right_mono)
    then have big: "real_of_int (2 ^ 52) * 2 powr real_of_int ey \<le> rval y"
      unfolding ry .
    define j where "j = ey + 52 - ex"
    have j: "0 \<le> j" using lt by (simp add: j_def)
    have "x < 2 powr (real_of_int ex + 53)" unfolding ex_def using rexp_props(2) [OF True] .
    also have "\<dots> \<le> 2 powr (real_of_int ey + 52)" using lt by simp
    also have "\<dots> = 2 powr real_of_int j * 2 powr real_of_int ex"
      by (simp add: j_def powr_add [symmetric])
    finally have "x / 2 powr real_of_int ex \<le> 2 powr real_of_int j"
      by (simp add: field_simps)
    then have "x / 2 powr real_of_int ex \<le> real_of_int (2 ^ nat j)"
      unfolding pow2_powr [OF j] .
    then have "Mx \<le> rhe (real_of_int (2 ^ nat j))" unfolding Mx_def by (rule rhe_mono)
    then have "Mx \<le> 2 ^ nat j" unfolding rhe_int .
    then have "real_of_int Mx \<le> real_of_int (2 ^ nat j)" by (simp only: of_int_le_iff)
    then have "real_of_int Mx \<le> 2 powr real_of_int j" unfolding pow2_powr [OF j] .
    then have "real_of_int Mx * 2 powr real_of_int ex \<le> 2 powr real_of_int j * 2 powr real_of_int ex"
      by (simp add: mult_right_mono)
    also have "\<dots> = 2 powr (real_of_int ey + 52)"
      by (simp add: j_def powr_add [symmetric])
    also have "\<dots> = real_of_int (2 ^ 52) * 2 powr real_of_int ey"
      using powr_int_add [of ey 52] by simp
    finally show ?thesis using big unfolding rx by linarith
  qed
qed

lemma rnd_not_NaN: "rnd neg x \<noteq> NaN"
  by (cases neg) (auto simp: rnd_def Let_def make_inf_def)

lemma fval_smant:
  "is_finite a \<Longrightarrow> fval a = real_of_int (smant a) * 2 powr real_of_int (expo a)"
  by (cases a) auto

lemma fl_le_fval:
  assumes "is_finite a" and "is_finite b"
  shows "fl_le a b = (fval a \<le> fval b)"
proof -
  define e where "e = min (expo a) (expo b)"
  have ea: "0 \<le> expo a - e" and eb: "0 \<le> expo b - e" by (simp_all add: e_def)
  have split: "2 powr real_of_int i = real_of_int (2 ^ nat (i - e)) * 2 powr real_of_int e"
    if "0 \<le> i - e" for i
    unfolding pow2_powr [OF that] by (simp add: powr_add [symmetric])
  have va: "fval a = real_of_int (smant a * 2 ^ nat (expo a - e)) * 2 powr real_of_int e"
    using split [OF ea] by (simp add: fval_smant [OF assms(1)])
  have vb: "fval b = real_of_int (smant b * 2 ^ nat (expo b - e)) * 2 powr real_of_int e"
    using split [OF eb] by (simp add: fval_smant [OF assms(2)])
  have "(fval a \<le> fval b)
      = (real_of_int (smant a * 2 ^ nat (expo a - e)) \<le> real_of_int (smant b * 2 ^ nat (expo b - e)))"
    unfolding va vb by (simp only: mult_le_cancel_right) simp
  also have "\<dots> = (smant a * 2 ^ nat (expo a - e) \<le> smant b * 2 ^ nat (expo b - e))"
    by (simp only: of_int_le_iff)
  also have "\<dots> = fl_le a b"
    using assms by (cases a; cases b) (simp_all add: fl_le_def Let_def e_def)
  finally show ?thesis by simp
qed

lemma rnd_mono:
  assumes "0 \<le> x" and "x \<le> y"
  shows "fl_le (rnd False x) (rnd False y)"
proof (cases "rval y < 2 powr 1024")
  case True
  have y0: "0 \<le> y" using assms by simp
  have tx: "rval x < 2 powr 1024" using rval_mono [OF assms] True by linarith
  show ?thesis
    unfolding fl_le_fval [OF rnd_finite(1) [OF assms(1) tx] rnd_finite(1) [OF y0 True]]
      rnd_finite(4) [OF assms(1) tx] rnd_finite(4) [OF y0 True]
    using assms by (rule rval_mono)
next
  case False
  have y0: "0 \<le> y" using assms by simp
  have "rnd False y = PosInf" using rnd_overflow [OF y0, of False] False by (simp add: make_inf_def)
  then show ?thesis using rnd_not_NaN [of False x] by (simp add: fl_le_def)
qed

text \<open>
  A binary64 number rounds to itself.
\<close>

lemma rnd_exact:
  assumes "is_b64 (Fin s m e)"
  shows "rnd s (real_of_int m * 2 powr real_of_int e) = Fin s m e"
proof (cases "m = 0")
  case True
  then have "e = - 1074" using assms by simp
  then show ?thesis using True by (simp add: rnd_zero make_zero_def)
next
  case False
  then have m: "0 < m" "m < 2 ^ 53" "- 1074 \<le> e" "e \<le> 971" "2 ^ 52 \<le> m \<or> e = - 1074"
    using assms by simp_all
  define x where "x = real_of_int m * 2 powr real_of_int e"
  have px: "0 < x" using m(1) by (simp add: x_def)
  have "real_of_int m < real_of_int (2 ^ 53)" using m(2) by (simp only: of_int_less_iff)
  then have "x < real_of_int (2 ^ 53) * 2 powr real_of_int e" by (simp add: x_def)
  then have up: "x < 2 powr (real_of_int e + 53)" using powr_int_add [of e 53] by simp
  have lo: "e = - 1074 \<or> 2 powr (real_of_int e + 52) \<le> x"
  proof (cases "e = - 1074")
    case False
    then have "real_of_int (2 ^ 52) \<le> real_of_int m" using m(5) by (simp only: of_int_le_iff) simp
    then have "real_of_int (2 ^ 52) * 2 powr real_of_int e \<le> x" by (simp add: x_def)
    then show ?thesis using powr_int_add [of e 52] by simp
  qed simp
  have e: "rexp x = e" using px m(3) up lo by (rule rexp_unique)
  have q: "x / 2 powr real_of_int e = real_of_int m" by (simp add: x_def)
  show ?thesis
    unfolding x_def [symmetric] rnd_def Let_def e q rhe_int using m by simp
qed

text \<open>
  The rounding of the model is rounding to nearest of the real number \<open>(n/d) * 2^k\<close>.
\<close>

lemma round_q_rnd:
  assumes "0 < n" and "0 < d"
  shows "round_q neg n d k = rnd neg (real_of_int n / real_of_int d * 2 powr real_of_int k)"
proof -
  define x where "x = real_of_int n / real_of_int d * 2 powr real_of_int k"
  define E where "E = lead_exp n d"
  have px: "0 < x" using assms by (simp add: x_def)
  have "2 powr real_of_int E * 2 powr real_of_int k \<le> x"
    unfolding x_def E_def using lead_exp_bounds(1) [OF assms] by (intro mult_right_mono) simp_all
  then have lo: "2 powr real_of_int (E + k) \<le> x" by (simp add: powr_add)
  have "x < 2 powr (real_of_int E + 1) * 2 powr real_of_int k"
    unfolding x_def E_def using lead_exp_bounds(2) [OF assms] by (intro mult_strict_right_mono) simp_all
  then have hi: "x < 2 powr (real_of_int (E + k) + 1)"
    by (simp add: powr_add [symmetric] add.commute add.left_commute)
  have "real_of_int (E + k) \<le> log 2 x" using lo px by (simp only: le_log_iff)
  moreover have "log 2 x < real_of_int (E + k) + 1" using hi px by (simp add: log_less_iff)
  ultimately have "\<lfloor>log 2 x\<rfloor> = E + k" by (rule floor_unique)
  then have e: "rexp x = max (E + k - 52) (- 1074)" using px by (simp add: rexp_def)
  define e where "e = max (E + k - 52) (- 1074)"
  have M: "(if e \<le> k then rne (n * 2 ^ nat (k - e)) d else rne n (d * 2 ^ nat (e - k)))
      = rhe (x / 2 powr real_of_int e)"
  proof (cases "e \<le> k")
    case True
    then have j: "0 \<le> k - e" by simp
    have "real_of_int (n * 2 ^ nat (k - e)) / real_of_int d
        = real_of_int n * 2 powr real_of_int (k - e) / real_of_int d"
      using pow2_powr [OF j] by simp
    also have "\<dots> = x / 2 powr real_of_int e"
      by (simp add: x_def powr_diff)
    finally show ?thesis using True rne_rhe [OF assms(2), of "n * 2 ^ nat (k - e)"] by simp
  next
    case False
    then have j: "0 \<le> e - k" by simp
    have d: "0 < d * 2 ^ nat (e - k)" using assms(2) by simp
    have "real_of_int n / real_of_int (d * 2 ^ nat (e - k))
        = real_of_int n / (real_of_int d * 2 powr real_of_int (e - k))"
      using pow2_powr [OF j] by simp
    also have "\<dots> = x / 2 powr real_of_int e"
      by (simp add: x_def powr_diff)
    finally show ?thesis using False rne_rhe [OF d, of n] by simp
  qed
  show ?thesis
    unfolding round_q_def rnd_def Let_def x_def [symmetric] E_def [symmetric] e e_def [symmetric] M
    by simp
qed

lemma rval_exact:
  assumes "is_b64 (Fin s m e)"
  shows "rval (real_of_int m * 2 powr real_of_int e) = real_of_int m * 2 powr real_of_int e"
    and "real_of_int m * 2 powr real_of_int e < 2 powr 1024"
proof -
  define x where "x = real_of_int m * 2 powr real_of_int e"
  have m: "0 \<le> m" "m < 2 ^ 53" "- 1074 \<le> e" "e \<le> 971" "2 ^ 52 \<le> m \<or> e = - 1074"
    using assms by simp_all
  have x0: "0 \<le> x" using m(1) by (simp add: x_def)
  have "real_of_int m < real_of_int (2 ^ 53)" using m(2) by (simp only: of_int_less_iff)
  then have "x < real_of_int (2 ^ 53) * 2 powr real_of_int e" by (simp add: x_def)
  also have "\<dots> \<le> real_of_int (2 ^ 53) * 2 powr real_of_int 971"
    using p2_le [OF m(4)] by (intro mult_left_mono) simp_all
  also have "\<dots> = 2 powr 1024" using powr_int_add [of 971 53] by simp
  finally show "real_of_int m * 2 powr real_of_int e < 2 powr 1024" unfolding x_def .
  then have "rnd s x = Fin s m e \<and> x < 2 powr 1024"
    using rnd_exact [OF assms] by (simp add: x_def)
  have "rval x = x"
  proof (cases "m = 0")
    case True
    then show ?thesis by (simp add: x_def rval_zero)
  next
    case False
    then have px: "0 < x" using m(1) by (simp add: x_def)
    have "real_of_int m < real_of_int (2 ^ 53)" using m(2) by (simp only: of_int_less_iff)
    then have "x < real_of_int (2 ^ 53) * 2 powr real_of_int e" by (simp add: x_def)
    then have up: "x < 2 powr (real_of_int e + 53)" using powr_int_add [of e 53] by simp
    have lo: "e = - 1074 \<or> 2 powr (real_of_int e + 52) \<le> x"
    proof (cases "e = - 1074")
      case False
      then have "real_of_int (2 ^ 52) \<le> real_of_int m" using m(5) by (simp only: of_int_le_iff) simp
      then have "real_of_int (2 ^ 52) * 2 powr real_of_int e \<le> x" by (simp add: x_def)
      then show ?thesis using powr_int_add [of e 52] by simp
    qed simp
    have e: "rexp x = e" using px m(3) up lo by (rule rexp_unique)
    have q: "x / 2 powr real_of_int e = real_of_int m" by (simp add: x_def)
    show ?thesis unfolding rval_unfold [of x] e q rhe_int by (simp add: x_def)
  qed
  then show "rval (real_of_int m * 2 powr real_of_int e) = real_of_int m * 2 powr real_of_int e"
    unfolding x_def .
qed

lemma fval_mag:
  assumes "is_b64 a" and "is_finite a" and "0 \<le> fval a"
  shows "real_of_int (mant a) * 2 powr real_of_int (expo a) = fval a"
    and "negative a \<Longrightarrow> fval a = 0"
  using assms by (cases a; auto simp: mult_le_0_iff zero_le_mult_iff)+

lemma fval_exact:
  assumes "is_b64 a" and "is_finite a" and "0 \<le> fval a"
  shows "rval (fval a) = fval a" and "fval a < 2 powr 1024"
proof -
  obtain s m e where a: "a = Fin s m e" using assms(2) by (cases a) auto
  have v: "real_of_int m * 2 powr real_of_int e = fval a"
    using fval_mag(1) [OF assms] by (simp add: a)
  have b: "is_b64 (Fin s m e)" using assms(1) a by simp
  show "rval (fval a) = fval a" using rval_exact(1) [OF b] unfolding v .
  show "fval a < 2 powr 1024" using rval_exact(2) [OF b] unfolding v .
qed

text \<open>Rounding a number that a finite binary64 number bounds.\<close>

lemma rnd_bounded:
  assumes "0 \<le> x" and "x \<le> fval f" and "is_b64 f" and "is_finite f" and "neg \<longrightarrow> x = 0"
  shows "is_finite (rnd neg x)" and "is_b64 (rnd neg x)" and "negative (rnd neg x) = neg"
    and "fval (rnd neg x) = rval x" and "rval x \<le> fval f" and "0 \<le> rval x"
proof -
  have f0: "0 \<le> fval f" using assms(1,2) by simp
  have "rval x \<le> rval (fval f)" using assms(1,2) by (rule rval_mono)
  then show le: "rval x \<le> fval f" unfolding fval_exact(1) [OF assms(3,4) f0] .
  then have small: "rval x < 2 powr 1024" using fval_exact(2) [OF assms(3,4) f0] by linarith
  show "is_finite (rnd neg x)" "is_b64 (rnd neg x)" "negative (rnd neg x) = neg"
    using rnd_finite(1-3) [OF assms(1) small] by simp_all
  show "0 \<le> rval x" using assms(1) by (rule rval_nonneg)
  show "fval (rnd neg x) = rval x"
  proof (cases neg)
    case True
    then show ?thesis using assms(5) by (simp add: rnd_zero rval_zero make_zero_def)
  next
    case False
    then show ?thesis using rnd_finite(4) [OF assms(1) small] by simp
  qed
qed

text \<open>The operations on finite numbers that are not negative.\<close>

lemma fl_mul_nn:
  assumes "is_b64 a" and "is_finite a" and "0 \<le> fval a"
    and "is_b64 b" and "is_finite b" and "0 \<le> fval b"
  shows "fl_mul a b = rnd (negative a \<noteq> negative b) (fval a * fval b)"
    and "negative a \<noteq> negative b \<Longrightarrow> fval a * fval b = 0"
proof -
  obtain s1 m1 e1 where a: "a = Fin s1 m1 e1" using assms(2) by (cases a) auto
  obtain s2 m2 e2 where b: "b = Fin s2 m2 e2" using assms(5) by (cases b) auto
  have va: "real_of_int m1 * 2 powr real_of_int e1 = fval a"
    using fval_mag(1) [OF assms(1-3)] by (simp add: a)
  have vb: "real_of_int m2 * 2 powr real_of_int e2 = fval b"
    using fval_mag(1) [OF assms(4-6)] by (simp add: b)
  have m: "0 \<le> m1" "0 \<le> m2" using assms(1,4) by (simp_all add: a b)
  have prod: "real_of_int (m1 * m2) / real_of_int 1 * 2 powr real_of_int (e1 + e2) = fval a * fval b"
    unfolding va [symmetric] vb [symmetric] by (simp add: powr_add)
  have d: "fl_mul a b = (if m1 * m2 = 0 then make_zero (s1 \<noteq> s2)
      else round_q (s1 \<noteq> s2) (m1 * m2) 1 (e1 + e2))"
    by (simp add: a b fl_mul_def)
  have sg: "(negative a \<noteq> negative b) = (s1 \<noteq> s2)" by (simp add: a b)
  show "fl_mul a b = rnd (negative a \<noteq> negative b) (fval a * fval b)"
  proof (cases "m1 * m2 = 0")
    case True
    then have z: "fval a * fval b = 0" using va vb by auto
    show ?thesis unfolding d sg z using True by (simp add: rnd_zero)
  next
    case False
    then have "0 < m1 * m2" using m by (simp add: zero_less_mult_iff less_le)
    then have "round_q (s1 \<noteq> s2) (m1 * m2) 1 (e1 + e2) = rnd (s1 \<noteq> s2) (fval a * fval b)"
      unfolding prod [symmetric] by (intro round_q_rnd) simp_all
    then show ?thesis unfolding d sg using False by simp
  qed
  show "fval a * fval b = 0" if "negative a \<noteq> negative b"
    using that fval_mag(2) [OF assms(1-3)] fval_mag(2) [OF assms(4-6)] by auto
qed

lemma fl_div_nn:
  assumes "is_b64 a" and "is_finite a" and "0 \<le> fval a"
    and "is_b64 b" and "is_finite b" and "0 < fval b"
  shows "fl_div a b = rnd (negative a) (fval a / fval b)"
    and "negative a \<Longrightarrow> fval a / fval b = 0"
proof -
  obtain s1 m1 e1 where a: "a = Fin s1 m1 e1" using assms(2) by (cases a) auto
  obtain s2 m2 e2 where b: "b = Fin s2 m2 e2" using assms(5) by (cases b) auto
  have b0: "0 \<le> fval b" using assms(6) by simp
  have va: "real_of_int m1 * 2 powr real_of_int e1 = fval a"
    using fval_mag(1) [OF assms(1-3)] by (simp add: a)
  have vb: "real_of_int m2 * 2 powr real_of_int e2 = fval b"
    using fval_mag(1) [OF assms(4,5) b0] by (simp add: b)
  have nb: "\<not> s2" using fval_mag(2) [OF assms(4,5) b0] assms(6) by (auto simp: b)
  have m: "0 \<le> m1" "0 \<le> m2" using assms(1,4) by (simp_all add: a b)
  have "m2 \<noteq> 0" using vb assms(6) by auto
  then have m2: "0 < m2" using m by simp
  have quot: "real_of_int m1 / real_of_int m2 * 2 powr real_of_int (e1 - e2) = fval a / fval b"
    unfolding va [symmetric] vb [symmetric] by (simp add: powr_diff)
  have d: "fl_div a b = (if m1 = 0 then make_zero s1 else round_q s1 m1 m2 (e1 - e2))"
    using m2 nb by (simp add: a b fl_div_def)
  have sg: "negative a = s1" by (simp add: a)
  show "fl_div a b = rnd (negative a) (fval a / fval b)"
  proof (cases "m1 = 0")
    case True
    then have z: "fval a / fval b = 0" using va by auto
    show ?thesis unfolding d sg z using True by (simp add: rnd_zero)
  next
    case False
    then have "0 < m1" using m by simp
    then have "round_q s1 m1 m2 (e1 - e2) = rnd s1 (fval a / fval b)"
      unfolding quot [symmetric] using m2 by (intro round_q_rnd)
    then show ?thesis unfolding d sg using False by simp
  qed
  show "fval a / fval b = 0" if "negative a"
    using that fval_mag(2) [OF assms(1-3)] by simp
qed

lemma fl_add_rnd:
  assumes "is_finite a" and "is_finite b"
  shows "fl_add a b =
           (if fval a + fval b = 0 then make_zero (negative a \<and> negative b)
            else rnd (fval a + fval b < 0) \<bar>fval a + fval b\<bar>)"
proof -
  define e where "e = min (expo a) (expo b)"
  define n where "n = smant a * 2 ^ nat (expo a - e) + smant b * 2 ^ nat (expo b - e)"
  have ea: "0 \<le> expo a - e" and eb: "0 \<le> expo b - e" by (simp_all add: e_def)
  have split: "2 powr real_of_int i = real_of_int (2 ^ nat (i - e)) * 2 powr real_of_int e"
    if "0 \<le> i - e" for i
    unfolding pow2_powr [OF that] by (simp add: powr_add [symmetric])
  have va: "fval a = real_of_int (smant a * 2 ^ nat (expo a - e)) * 2 powr real_of_int e"
    using split [OF ea] by (simp add: fval_smant [OF assms(1)])
  have vb: "fval b = real_of_int (smant b * 2 ^ nat (expo b - e)) * 2 powr real_of_int e"
    using split [OF eb] by (simp add: fval_smant [OF assms(2)])
  have sum: "fval a + fval b = real_of_int n * 2 powr real_of_int e"
    unfolding va vb n_def by (simp add: algebra_simps)
  have z: "(fval a + fval b = 0) = (n = 0)" unfolding sum by simp
  have neg: "(fval a + fval b < 0) = (n < 0)"
    unfolding sum by (simp add: mult_less_0_iff)
  have ab: "\<bar>fval a + fval b\<bar> = real_of_int \<bar>n\<bar> / real_of_int 1 * 2 powr real_of_int e"
    unfolding sum by (simp add: abs_mult)
  have def: "fl_add a b = (if n = 0 then make_zero (negative a \<and> negative b)
      else round_q (n < 0) \<bar>n\<bar> 1 e)"
    using assms by (cases a; cases b) (simp_all add: fl_add_def Let_def e_def n_def)
  show ?thesis
  proof (cases "n = 0")
    case True
    then show ?thesis using z by (simp add: def)
  next
    case False
    then have "0 < \<bar>n\<bar>" by simp
    then have "round_q (n < 0) \<bar>n\<bar> 1 e = rnd (n < 0) \<bar>fval a + fval b\<bar>"
      unfolding ab by (intro round_q_rnd) simp_all
    then show ?thesis using False z neg by (simp add: def)
  qed
qed

text \<open>
  The numbers 0, 1 and 8, and order between finite numbers.
\<close>

lemma fval_one: "fval (dec 1 1) = 1"
  by (simp add: one_literal powr_minus_divide)

lemma fval_zero: "fval (dec 0 1) = 0"
  by (simp add: dec_def make_zero_def)

lemma one_props: "is_b64 (dec 1 1)" "is_finite (dec 1 1)" "\<not> negative (dec 1 1)"
  by (simp_all add: one_literal)

lemma zero_props: "is_b64 (dec 0 1)" "is_finite (dec 0 1)" "\<not> negative (dec 0 1)"
  by (simp_all add: dec_def make_zero_def)

lemma fval_neg: "fval (fl_neg a) = - fval a"
  by (cases a) auto

lemma fl_sub_one:
  assumes "is_finite y" and "fval y \<le> 1"
  shows "fl_sub (dec 1 1) y = rnd False (1 - fval y)"
proof -
  have f: "is_finite (fl_neg y)" using assms(1) by (cases y) auto
  show ?thesis
    unfolding fl_sub_def fl_add_rnd [OF one_props(2) f] fval_neg fval_one
    using assms(2) one_props(3) by (simp add: rnd_zero)
qed

lemma eight_literal: "dec 8 1 = Fin False (2 ^ 52) (- 49)"
  by code_simp

lemma eight_props: "is_b64 (dec 8 1)" "is_finite (dec 8 1)" "fval (dec 8 1) = 8"
  by (simp_all add: eight_literal powr_minus_divide)

lemma fl_le_is_finite:
  "is_finite z \<Longrightarrow> fl_le z a \<Longrightarrow> fl_le a c \<Longrightarrow> fl_le c b \<Longrightarrow> is_finite b \<Longrightarrow> is_finite c"
  by (cases z; cases a; cases b; cases c) (simp_all add: fl_le_def)

lemma fl_le_refl: "is_finite a \<Longrightarrow> fl_le a a"
  by (cases a) (simp_all add: fl_le_def)

lemma fl_le_nonneg:
  assumes "fl_le (dec 0 1) c" and "fl_le c d" and "is_finite d"
  shows "is_finite c" and "0 \<le> fval c" and "fval c \<le> fval d"
proof -
  show f: "is_finite c"
    using zero_props(2) fl_le_refl [OF zero_props(2)] assms by (rule fl_le_is_finite)
  show "0 \<le> fval c"
    using assms(1) unfolding fl_le_fval [OF zero_props(2) f] fval_zero .
  show "fval c \<le> fval d"
    using assms(2) unfolding fl_le_fval [OF f assms(3)] .
qed

section \<open>Cell 5\<close>

lemma cell5_fields:
  "evap (cell5 s) = fl_div (evaporation s) (dec 3600 1)"
  "precip (cell5 s) = fl_div (rain s) (dec 3600 1)"
  "Qnet (cell5 s) = fl_add (fl_neg (QnetMinusSW s)) (Qshortwave s)"
  "Ft (cell5 s) = fl_div (fl_neg (Qnet (cell5 s))) (fl_mul (rho0 s) (Cp s))"
  "Fs (cell5 s) = fl_div (fl_sub (evap (cell5 s)) (precip (cell5 s)))
                         (fl_sub (dec 1 1) (fl_div (surfaceSalinity s) (dec 1000 1)))"
  "Qp (cell5 s) = fl_mul (rho0 s)
                    (fl_add (fl_mul (alpha s) (Ft (cell5 s))) (fl_mul (beta s) (Fs (cell5 s))))"
  by (simp_all add: cell5_def Let_def)

text \<open>
  Claim C1. For every namespace, so in particular for a salinity below 1000, a nonzero
  \<open>Cp\<close> and a positive reference density, cell 5 follows the specification's step
  sequence in binary64 arithmetic: evaporation and rain are divided by 3600, then
  \<open>Qnet = -QnetMinusSW + Qshortwave\<close>, \<open>Ft = -Qnet / (rho0 * Cp)\<close>,
  \<open>Fs = (evap - precip) / (1 - surfaceSalinity/1000)\<close> and
  \<open>Qp = rho0 * (alpha*Ft + beta*Fs)\<close>, each operation being the float operation of that
  name (correctly rounded, with its overflow, underflow and special values); and the pair
  \<open>(Qnet, Qp)\<close> is the one the specification's \<open>compute_density_flux\<close>
  returns when it is carried out in the same arithmetic.
\<close>

theorem cell5_density_flux:
  "evap (cell5 s) = fl_div (evaporation s) (dec 3600 1)
   \<and> precip (cell5 s) = fl_div (rain s) (dec 3600 1)
   \<and> Qnet (cell5 s) = fl_add (fl_neg (QnetMinusSW s)) (Qshortwave s)
   \<and> Ft (cell5 s) = fl_div (fl_neg (Qnet (cell5 s))) (fl_mul (rho0 s) (Cp s))
   \<and> Fs (cell5 s) = fl_div (fl_sub (evap (cell5 s)) (precip (cell5 s)))
                         (fl_sub (dec 1 1) (fl_div (surfaceSalinity s) (dec 1000 1)))
   \<and> Qp (cell5 s) = fl_mul (rho0 s)
                       (fl_add (fl_mul (alpha s) (Ft (cell5 s))) (fl_mul (beta s) (Fs (cell5 s))))
   \<and> (Qnet (cell5 s), Qp (cell5 s)) =
       spec_compute_density_flux (evaporation s) (rain s) (QnetMinusSW s) (Qshortwave s)
         (surfaceSalinity s) (alpha s, beta s, Cp s) (rho0 s)"
  by (simp add: cell5_fields spec_compute_density_flux_def Let_def)

text \<open>
  An example within the preconditions of claim C1: a non-shortwave flux of 100 W/m2, a shortwave
  flux of 300, an evaporation of 7.2 and a rain of 3.6 mm/hour, a salinity of 23,
  \<open>alpha = 2e-4\<close>, \<open>beta = 8e-4\<close>, \<open>Cp = 4000\<close> and
  \<open>rho0 = 1025\<close>. The density flux is the float \<open>7648979248127784 * 2^-63\<close>,
  about \<open>8.2929e-4\<close>; it is not the real number the formula denotes.
\<close>

lemma cell5_example:
  "Qnet (cell5 before_cell5) = dec 200 1
   \<and> Ft (cell5 before_cell5) = Fin True 7198729394618362 (- 67)
   \<and> Fs (cell5 before_cell5) = Fin False 4720251810058739 (- 62)
   \<and> Qp (cell5 before_cell5) = Fin False 7648979248127784 (- 63)"
  by code_simp

text \<open>
  The preconditions of claim C1 do not keep the steps finite: with
  \<open>rho0 = Cp = 2^-600\<close>, both positive, the product \<open>rho0 * Cp\<close> underflows
  to zero and \<open>Ft\<close> is \<open>-inf\<close>.
\<close>

lemma cell5_tiny_density:
  "Ft (cell5 (before_cell5\<lparr>rho0 := Fin False (2 ^ 52) (- 652), Cp := Fin False (2 ^ 52) (- 652)\<rparr>))
     = NegInf"
  by code_simp

section \<open>Cell 6\<close>

lemma cell6_fields:
  "Bf (cell6 ext s) = fl_div (fl_mul (fl_neg (g s)) (Qp s)) (rho0 s)"
  "ustar (cell6 ext s) = fl_sqrt (fl_div (tau s) (rho0 s))"
  "kappa (cell6 ext s) = dec 4 10"
  "L (cell6 ext s) =
     fl_div (fl_neg (fl_pow (c_pow ext) (ustar (cell6 ext s)) 3))
            (fl_mul (kappa (cell6 ext s)) (Bf (cell6 ext s)))"
  by (simp_all add: cell6_def Let_def)

text \<open>
  Claim C2. For every namespace, so in particular for \<open>tau >= 0\<close>, a positive reference
  density and a nonzero \<open>vonKarman * Bf\<close>, cell 6 sets the von Karman constant to the
  float 0.4 and computes, in binary64 arithmetic, \<open>Bf = -g * Qp / rho0\<close>,
  \<open>ustar = sqrt (tau / rho0)\<close> and \<open>L = -ustar^3 / (kappa * Bf)\<close>, the cube
  being the one the C library's \<^verbatim>\<open>pow\<close> returns; the three are what the
  specification's \<open>compute_obukhov\<close> gives with \<open>vonKarman = 0.4\<close> in the
  same arithmetic.
\<close>

theorem cell6_obukhov:
  "kappa (cell6 ext s) = dec 4 10
   \<and> Bf (cell6 ext s) = fl_div (fl_mul (fl_neg (g s)) (Qp s)) (rho0 s)
   \<and> ustar (cell6 ext s) = fl_sqrt (fl_div (tau s) (rho0 s))
   \<and> L (cell6 ext s) =
       fl_div (fl_neg (fl_pow (c_pow ext) (ustar (cell6 ext s)) 3))
              (fl_mul (dec 4 10) (Bf (cell6 ext s)))
   \<and> (Bf (cell6 ext s), ustar (cell6 ext s), L (cell6 ext s)) =
       spec_compute_obukhov (c_pow ext) (Qp s) (tau s) (rho0 s) (g s) (dec 4 10)"
  by (simp add: cell6_fields spec_compute_obukhov_def Let_def)

text \<open>
  An example within the preconditions of claim C2: \<open>Qp = 0.001\<close> and
  \<open>tau = 4100\<close>, so that \<open>ustar\<close> is exactly 2. The Obukhov length is the
  float \<open>8975211984505605 * 2^-32\<close>, about 2089704.38.
\<close>

lemma cell6_example:
  "Bf (cell6 stub_libs (before_cell6 (dec 1 1000) (dec 4100 1))) = Fin True 5649562828896491 (- 69)
   \<and> ustar (cell6 stub_libs (before_cell6 (dec 1 1000) (dec 4100 1))) = dec 2 1
   \<and> L (cell6 stub_libs (before_cell6 (dec 1 1000) (dec 4100 1))) = Fin False 8975211984505605 (- 32)"
  by code_simp

text \<open>
  The product \<open>kappa * Bf\<close> is a float product: with the smallest positive density flux,
  \<open>Qp = 2^-1074\<close>, the buoyancy flux \<open>Bf\<close> is nonzero but
  \<open>kappa * Bf\<close> underflows to \<^verbatim>\<open>-0.0\<close>, and \<open>L\<close> is
  \<open>+inf\<close>.
\<close>

lemma cell6_tiny_density_flux:
  "fl_mul (dec 4 10) (Bf (cell6 stub_libs (before_cell6 (Fin False 1 (- 1074)) (dec 4100 1))))
     = Fin True 0 (- 1074)
   \<and> L (cell6 stub_libs (before_cell6 (Fin False 1 (- 1074)) (dec 4100 1))) = PosInf"
  by code_simp

text \<open>
  Claim C3 as stated fails at \<open>tau = 0\<close>: with \<open>Qp = 0\<close> and no wind stress
  the buoyancy flux is a zero, \<^verbatim>\<open>-ustar**3\<close> is a zero too, and
  \<^verbatim>\<open>0/0\<close> is \<open>NaN\<close>, not an infinity.
\<close>

theorem cell6_neutral_calm_nan:
  "is_zero (Bf (cell6 stub_libs (before_cell6 (dec 0 1) (dec 0 1))))
   \<and> L (cell6 stub_libs (before_cell6 (dec 0 1) (dec 0 1))) = NaN
   \<and> \<not> is_inf (L (cell6 stub_libs (before_cell6 (dec 0 1) (dec 0 1))))"
  by code_simp

lemma fl_sqrt_zero: "is_zero a \<Longrightarrow> fl_sqrt a = a"
  by (cases a) auto

lemma fl_pow_zero_odd: "is_zero a \<Longrightarrow> odd n \<Longrightarrow> fl_pow cpow a n = a"
  by (cases a) (auto elim: oddE)

text \<open>
  Claim C3, amended. When \<open>Bf\<close> is a zero, no statement of cell 6 raises (NumPy divides
  \<^verbatim>\<open>float64\<close> numbers by zero without an exception) and \<open>L\<close> is
  the value of the float division of \<^verbatim>\<open>-ustar**3\<close> by the zero
  \<open>kappa * Bf\<close>: \<open>NaN\<close> when \<^verbatim>\<open>ustar**3\<close> is a zero
  or \<open>NaN\<close>, and otherwise an infinity, \<open>-inf\<close> when
  \<^verbatim>\<open>ustar**3\<close> and \<open>Bf\<close> have the same sign bit and
  \<open>+inf\<close> when they differ. In particular, for \<open>tau = 0\<close> (and a finite
  nonzero reference density) \<^verbatim>\<open>ustar**3\<close> is a zero and \<open>L\<close> is
  \<open>NaN\<close>.
\<close>

theorem cell6_neutral:
  assumes "is_zero (Bf (cell6 ext s))"
  shows "L (cell6 ext s) =
           (if fl_pow (c_pow ext) (ustar (cell6 ext s)) 3 = NaN
               \<or> is_zero (fl_pow (c_pow ext) (ustar (cell6 ext s)) 3)
            then NaN
            else make_inf (negative (fl_pow (c_pow ext) (ustar (cell6 ext s)) 3)
                           = negative (Bf (cell6 ext s))))
       \<and> (if is_zero (tau s) \<and> is_finite (rho0 s) \<and> \<not> is_zero (rho0 s)
          then is_zero (fl_pow (c_pow ext) (ustar (cell6 ext s)) 3) \<and> L (cell6 ext s) = NaN
          else True)"
proof -
  define c where "c = fl_pow (c_pow ext) (ustar (cell6 ext s)) 3"
  have den: "fl_mul (kappa (cell6 ext s)) (Bf (cell6 ext s)) = make_zero (negative (Bf (cell6 ext s)))"
    using assms by (simp add: cell6_fields(3) kappa_literal fl_mul_zero_right)
  have dz: "is_zero (make_zero (negative (Bf (cell6 ext s))))"
    by (simp add: make_zero_def)
  have l: "L (cell6 ext s) =
      (if c = NaN \<or> is_zero c then NaN else make_inf (negative c = negative (Bf (cell6 ext s))))"
    unfolding cell6_fields(4) den c_def [symmetric]
    by (cases c) (auto simp: fl_div_def make_zero_def make_inf_def)
  have calm: "is_zero c" if "is_zero (tau s)" "is_finite (rho0 s)" "\<not> is_zero (rho0 s)"
  proof -
    have "is_zero (fl_div (tau s) (rho0 s))"
      using that by (simp add: fl_div_zero_left make_zero_def)
    then have "is_zero (ustar (cell6 ext s))"
      by (simp add: cell6_fields(2) fl_sqrt_zero)
    then show ?thesis by (simp add: c_def fl_pow_zero_odd)
  qed
  show ?thesis
    using l calm unfolding c_def by auto
qed

text \<open>
  An instance with \<open>Qp = 0\<close> and \<open>tau = 4100\<close>: \<open>Bf\<close> is
  \<^verbatim>\<open>-0.0\<close>, \<^verbatim>\<open>ustar**3\<close> is 8 and \<open>L\<close> is
  \<open>+inf\<close>.
\<close>

theorem cell6_neutral_witness:
  "is_zero (Bf (cell6 stub_libs (before_cell6 (dec 0 1) (dec 4100 1))))
   \<and> Bf (cell6 stub_libs (before_cell6 (dec 0 1) (dec 4100 1))) = Fin True 0 (- 1074)
   \<and> fl_pow cr_pow (ustar (cell6 stub_libs (before_cell6 (dec 0 1) (dec 4100 1)))) 3 = dec 8 1
   \<and> L (cell6 stub_libs (before_cell6 (dec 0 1) (dec 4100 1))) = PosInf"
proof -
  have z: "is_zero (Bf (cell6 stub_libs (before_cell6 (dec 0 1) (dec 4100 1))))"
    by code_simp
  have v: "Bf (cell6 stub_libs (before_cell6 (dec 0 1) (dec 4100 1))) = Fin True 0 (- 1074)"
    "fl_pow cr_pow (ustar (cell6 stub_libs (before_cell6 (dec 0 1) (dec 4100 1)))) 3 = dec 8 1"
    by code_simp+
  have e: "dec 8 1 = Fin False (2 ^ 52) (- 49)" by code_simp
  have c: "c_pow stub_libs = cr_pow" by (simp add: stub_libs_def)
  show ?thesis
    using cell6_neutral [OF z] z v unfolding c by (simp add: e make_inf_def)
qed

text \<open>
  The cube is a zero for small positive stresses too: with \<open>tau = 1e-250\<close> the friction
  velocity is about \<open>3.12e-127\<close>, its cube underflows to zero, and \<open>L\<close> is
  \<open>NaN\<close>.
\<close>

lemma cell6_neutral_underflow:
  "ustar (cell6 stub_libs (before_cell6 (dec 0 1) (Fin False 6448907850777164 (- 883))))
     = Fin False 7617737730830484 (- 473)
   \<and> fl_pow cr_pow (Fin False 7617737730830484 (- 473)) 3 = Fin False 0 (- 1074)
   \<and> L (cell6 stub_libs (before_cell6 (dec 0 1) (Fin False 6448907850777164 (- 883)))) = NaN"
  by code_simp

text \<open>
  Claim C6 as stated fails: with \<open>tau = -1\<close> nothing is raised,
  \<^verbatim>\<open>np.sqrt\<close> returns \<open>NaN\<close> and the Obukhov length is
  \<open>NaN\<close> as well.
\<close>

theorem cell6_negative_stress_nan:
  "ustar (cell6 stub_libs (before_cell6 (dec 1 1000) (fl_neg (dec 1 1)))) = NaN
   \<and> L (cell6 stub_libs (before_cell6 (dec 1 1000) (fl_neg (dec 1 1)))) = NaN"
  by code_simp

text \<open>
  Claim C6, amended. Cell 6 has no check of the stress, and \<^verbatim>\<open>np.sqrt\<close>
  raises nothing. For every finite \<open>tau < 0\<close> and every finite \<open>rho0 > 0\<close>
  the float quotient \<open>tau / rho0\<close> has its sign bit set and is not \<open>NaN\<close>;
  when this quotient is nonzero the friction velocity is \<open>NaN\<close> (not a complex number)
  and so is the Obukhov length; when the quotient underflows to \<^verbatim>\<open>-0.0\<close> the
  friction velocity is \<^verbatim>\<open>-0.0\<close>.
\<close>

theorem cell6_negative_stress:
  assumes "is_finite (tau s)" and "negative (tau s)" and "\<not> is_zero (tau s)"
    and "is_finite (rho0 s)" and "\<not> negative (rho0 s)" and "\<not> is_zero (rho0 s)"
  shows "negative (fl_div (tau s) (rho0 s)) \<and> fl_div (tau s) (rho0 s) \<noteq> NaN
       \<and> ustar (cell6 ext s) =
           (if is_zero (fl_div (tau s) (rho0 s)) then fl_div (tau s) (rho0 s) else NaN)
       \<and> (if is_zero (fl_div (tau s) (rho0 s)) then True else L (cell6 ext s) = NaN)"
proof -
  define q where "q = fl_div (tau s) (rho0 s)"
  have q: "q = round_q True (mant (tau s)) (mant (rho0 s)) (expo (tau s) - expo (rho0 s))"
    unfolding q_def using assms by (simp add: fl_div_finite)
  then have nq: "negative q" "q \<noteq> NaN"
    by (simp_all add: negative_round_q round_q_not_NaN)
  then have us: "fl_sqrt q = (if is_zero q then q else NaN)"
    by (cases q) auto
  have "L (cell6 ext s) = NaN" if "\<not> is_zero q"
    using that us by (simp add: cell6_fields q_def [symmetric] fl_div_NaN_left)
  then show ?thesis
    using nq us by (simp add: cell6_fields(2) q_def [symmetric])
qed

text \<open>
  An instance with \<open>tau = -2\<close> and \<open>rho0 = 1025\<close>: the quotient is the float
  \<open>-8998411743272952 * 2^-62\<close>, and \<open>ustar\<close> and \<open>L\<close> are
  \<open>NaN\<close>.
\<close>

theorem cell6_negative_stress_witness:
  "is_finite (tau (before_cell6 (dec 0 1) (fl_neg (dec 2 1))))
   \<and> negative (tau (before_cell6 (dec 0 1) (fl_neg (dec 2 1))))
   \<and> fl_div (tau (before_cell6 (dec 0 1) (fl_neg (dec 2 1)))) (rho0 (before_cell6 (dec 0 1) (fl_neg (dec 2 1))))
       = Fin True 8998411743272952 (- 62)
   \<and> ustar (cell6 stub_libs (before_cell6 (dec 0 1) (fl_neg (dec 2 1)))) = NaN
   \<and> L (cell6 stub_libs (before_cell6 (dec 0 1) (fl_neg (dec 2 1)))) = NaN"
proof -
  have h: "is_finite (tau (before_cell6 (dec 0 1) (fl_neg (dec 2 1))))"
    "negative (tau (before_cell6 (dec 0 1) (fl_neg (dec 2 1))))"
    "\<not> is_zero (tau (before_cell6 (dec 0 1) (fl_neg (dec 2 1))))"
    "is_finite (rho0 (before_cell6 (dec 0 1) (fl_neg (dec 2 1))))"
    "\<not> negative (rho0 (before_cell6 (dec 0 1) (fl_neg (dec 2 1))))"
    "\<not> is_zero (rho0 (before_cell6 (dec 0 1) (fl_neg (dec 2 1))))"
    by code_simp+
  have v: "fl_div (tau (before_cell6 (dec 0 1) (fl_neg (dec 2 1)))) (rho0 (before_cell6 (dec 0 1) (fl_neg (dec 2 1))))
       = Fin True 8998411743272952 (- 62)"
    by code_simp
  show ?thesis
    using cell6_negative_stress [OF h, of stub_libs] h(1,2) unfolding v by simp
qed

text \<open>
  The underflow case occurs: with \<open>tau = -1e-321\<close> (the subnormal
  \<open>-202 * 2^-1074\<close>) and \<open>rho0 = 1025\<close> the quotient is
  \<^verbatim>\<open>-0.0\<close> and so is \<open>ustar\<close>.
\<close>

lemma cell6_negative_stress_underflow:
  "fl_div (fl_neg (Fin False 202 (- 1074))) (dec 1025 1) = Fin True 0 (- 1074)
   \<and> ustar (cell6 stub_libs (before_cell6 (dec 0 1) (fl_neg (Fin False 202 (- 1074)))))
       = Fin True 0 (- 1074)"
  by code_simp

section \<open>Cell 3: the net shortwave irradiance\<close>

text \<open>
  The shortwave statements of cell 3 in one piece: they fail only with the
  \<^verbatim>\<open>OverflowError\<close> of \<^verbatim>\<open>Cfrac**3\<close>.
\<close>

lemma shortwave_unfold:
  "shortwave ext s =
     (if is_finite (fl_div (cloudCover s) (dec 8 1))
          \<and> is_inf (fl_pow (c_pow ext) (fl_div (cloudCover s) (dec 8 1)) 3)
      then Inl OverflowError
      else Inr (s\<lparr>Cfrac := fl_div (cloudCover s) (dec 8 1), albedo := dec 6 100,
                  Qshortwave :=
                    fl_mul (fl_mul (fl_sub (dec 1 1) (dec 6 100)) (QswIdeal s))
                           (fl_sub (dec 1 1)
                              (fl_pow (c_pow ext) (fl_div (cloudCover s) (dec 8 1)) 3))\<rparr>))"
  by (simp add: shortwave_def py_pow_def Let_def)


text \<open>
  Claim C4 as stated fails for an albedo other than 0.06: the cell assigns \<open>albedo\<close>
  itself. With 4 oktas, 800 W/m2 and an albedo of 0.5 the formula gives 350, the cell 658.
\<close>

theorem shortwave_ignores_albedo:
  "spec_estimate_net_shortwave cr_pow (dec 4 1) (dec 800 1) (dec 1 2) = Inr (dec 350 1)
   \<and> map_sum id Qshortwave (shortwave stub_libs (sky (dec 4 1) (dec 800 1) (dec 1 2)))
       = Inr (dec 658 1)"
  by code_simp

text \<open>
  Claim C4, amended. For every cloud cover in \<open>[0, 8]\<close> and every clear-sky irradiance,
  as long as the C library's \<^verbatim>\<open>pow\<close> does not return an infinity for the
  cube, the cell returns \<open>(1 - albedo) * QswIdeal * (1 - (cloudCover/8.0)^3)\<close> evaluated
  in binary64 arithmetic with \<open>albedo = 0.06\<close>, the float it assigns, whatever
  \<open>albedo\<close> held before; this is the result of the specification's
  \<open>estimate_net_shortwave\<close> called with an albedo of 0.06 in the same arithmetic.
\<close>

theorem shortwave_formula:
  assumes "fl_le (dec 0 1) (cloudCover s)" and "fl_le (cloudCover s) (dec 8 1)"
    and "\<not> is_inf (fl_pow (c_pow ext) (fl_div (cloudCover s) (dec 8 1)) 3)"
  shows "map_sum id albedo (shortwave ext s) = Inr (dec 6 100)
       \<and> map_sum id Qshortwave (shortwave ext s) =
           Inr (fl_mul (fl_mul (fl_sub (dec 1 1) (dec 6 100)) (QswIdeal s))
                       (fl_sub (dec 1 1)
                          (fl_pow (c_pow ext) (fl_div (cloudCover s) (dec 8 1)) 3)))
       \<and> map_sum id Qshortwave (shortwave ext s) =
           spec_estimate_net_shortwave (c_pow ext) (cloudCover s) (QswIdeal s) (dec 6 100)"
  using assms by (simp add: shortwave_unfold spec_estimate_net_shortwave_def Let_def)

text \<open>
  The instance recorded in the notebook, 7 oktas under 970 W/m2 (with 0.5 left in
  \<open>albedo\<close>): the result is the float \<open>5294636396026265 * 2^-44\<close>, which
  prints as 300.96523437499997.
\<close>

theorem shortwave_formula_witness:
  "fl_le (dec 0 1) (cloudCover (sky (dec 7 1) (dec 970 1) (dec 1 2)))
   \<and> fl_le (cloudCover (sky (dec 7 1) (dec 970 1) (dec 1 2))) (dec 8 1)
   \<and> albedo (sky (dec 7 1) (dec 970 1) (dec 1 2)) = dec 1 2
   \<and> map_sum id albedo (shortwave stub_libs (sky (dec 7 1) (dec 970 1) (dec 1 2))) = Inr (dec 6 100)
   \<and> map_sum id Qshortwave (shortwave stub_libs (sky (dec 7 1) (dec 970 1) (dec 1 2)))
       = Inr (Fin False 5294636396026265 (- 44))
   \<and> spec_estimate_net_shortwave cr_pow (dec 7 1) (dec 970 1) (dec 6 100)
       = Inr (Fin False 5294636396026265 (- 44))"
proof -
  have h: "fl_le (dec 0 1) (cloudCover (sky (dec 7 1) (dec 970 1) (dec 1 2)))"
    "fl_le (cloudCover (sky (dec 7 1) (dec 970 1) (dec 1 2))) (dec 8 1)"
    "\<not> is_inf (fl_pow (c_pow stub_libs)
        (fl_div (cloudCover (sky (dec 7 1) (dec 970 1) (dec 1 2))) (dec 8 1)) 3)"
    by code_simp+
  have v: "albedo (sky (dec 7 1) (dec 970 1) (dec 1 2)) = dec 1 2"
    "map_sum id Qshortwave (shortwave stub_libs (sky (dec 7 1) (dec 970 1) (dec 1 2)))
       = Inr (Fin False 5294636396026265 (- 44))"
    "cloudCover (sky (dec 7 1) (dec 970 1) (dec 1 2)) = dec 7 1"
    "QswIdeal (sky (dec 7 1) (dec 970 1) (dec 1 2)) = dec 970 1"
    by code_simp+
  have c: "c_pow stub_libs = cr_pow" by (simp add: stub_libs_def)
  note f = shortwave_formula [OF h, unfolded v(3,4) c]
  have a: "map_sum id albedo (shortwave stub_libs (sky (dec 7 1) (dec 970 1) (dec 1 2)))
      = Inr (dec 6 100)"
    using f by (rule conjunct1)
  have sp: "spec_estimate_net_shortwave cr_pow (dec 7 1) (dec 970 1) (dec 6 100)
      = Inr (Fin False 5294636396026265 (- 44))"
    using f [THEN conjunct2, THEN conjunct2] v(2) by (rule trans [OF sym])
  show ?thesis
    using h(1,2) v(1,2) a sp by (intro conjI)
qed

text \<open>
  Claim C7 as stated fails: the cell has no range check. With 16 oktas, where the specification's
  function fails with \<open>InvalidInput\<close>, the cell returns -658 W/m2.
\<close>

theorem shortwave_no_range_check:
  "spec_estimate_net_shortwave cr_pow (dec 16 1) (dec 100 1) (dec 6 100) = Inl InvalidInput
   \<and> map_sum id Qshortwave (shortwave stub_libs (sky (dec 16 1) (dec 100 1) (dec 6 100)))
       = Inr (fl_neg (dec 658 1))"
  by code_simp

text \<open>
  Claim C7, amended. The cell never fails with \<open>InvalidInput\<close>: it has no range check.
  For every cloud cover, inside \<open>[0, 8]\<close> or not, and every clear-sky irradiance, it
  either raises Python's \<^verbatim>\<open>OverflowError\<close>, which happens exactly when
  \<open>cloudCover/8.0\<close> is finite and \<^verbatim>\<open>pow\<close> returns an infinity for
  its cube, or it returns the binary64 value of
  \<open>(1 - 0.06) * QswIdeal * (1 - (cloudCover/8.0)^3)\<close>.
\<close>

theorem shortwave_total:
  "shortwave ext s \<noteq> Inl InvalidInput
   \<and> map_sum id Qshortwave (shortwave ext s) =
       (if is_finite (fl_div (cloudCover s) (dec 8 1))
            \<and> is_inf (fl_pow (c_pow ext) (fl_div (cloudCover s) (dec 8 1)) 3)
        then Inl OverflowError
        else Inr (fl_mul (fl_mul (fl_sub (dec 1 1) (dec 6 100)) (QswIdeal s))
                         (fl_sub (dec 1 1)
                            (fl_pow (c_pow ext) (fl_div (cloudCover s) (dec 8 1)) 3))))"
  by (simp add: shortwave_unfold)

text \<open>
  Both outcomes occur outside \<open>[0, 8]\<close>: with \<open>1e200\<close> oktas the cube
  overflows and the power operator raises \<^verbatim>\<open>OverflowError\<close>; with
  \<open>1e103\<close> oktas the cube is finite, the product overflows silently, and the cell
  returns \<open>-inf\<close>.
\<close>

lemma shortwave_overflow_examples:
  "shortwave stub_libs (sky (Fin False 5883593420661338 612) (dec 970 1) NaN) = Inl OverflowError
   \<and> map_sum id Qshortwave (shortwave stub_libs (sky (Fin False 5026911708464872 290) (dec 970 1) NaN))
       = Inr NegInf"
  by code_simp


section \<open>Cell 3: monotonicity in cloud cover\<close>

text \<open>The cloud fraction \<^verbatim>\<open>cloudCover/8.0\<close> of a cloud cover in \<open>[0, 8]\<close>.\<close>

lemma cloud_fraction:
  assumes "is_b64 c" and "fl_le (dec 0 1) c" and "fl_le c (dec 8 1)"
  shows "is_b64 (fl_div c (dec 8 1))" and "is_finite (fl_div c (dec 8 1))"
    and "fval (fl_div c (dec 8 1)) = rval (fval c / 8)"
    and "fl_le (dec 0 1) (fl_div c (dec 8 1))" and "fl_le (fl_div c (dec 8 1)) (dec 1 1)"
proof -
  note c = fl_le_nonneg [OF assms(2,3) eight_props(2), unfolded eight_props(3)]
  have e: "0 < fval (dec 8 1)" by (simp add: eight_props(3))
  note d = fl_div_nn [OF assms(1) c(1,2) eight_props(1,2) e, unfolded eight_props(3)]
  have x0: "0 \<le> fval c / 8" using c(2) by simp
  have x1: "fval c / 8 \<le> fval (dec 1 1)" using c(3) by (simp add: fval_one)
  have n: "negative c \<longrightarrow> fval c / 8 = 0" using d(2) by simp
  note r = rnd_bounded [of "fval c / 8" "dec 1 1" "negative c", OF x0 x1 one_props(1,2) n,
      folded d(1), unfolded fval_one]
  show "is_b64 (fl_div c (dec 8 1))" "is_finite (fl_div c (dec 8 1))"
    "fval (fl_div c (dec 8 1)) = rval (fval c / 8)"
    using r(1,2,4) by simp_all
  show "fl_le (dec 0 1) (fl_div c (dec 8 1))"
    unfolding fl_le_fval [OF zero_props(2) r(1)] fval_zero r(4) using r(6) .
  show "fl_le (fl_div c (dec 8 1)) (dec 1 1)"
    unfolding fl_le_fval [OF r(1) one_props(2)] fval_one r(4) using r(5) .
qed

lemma cloud_fraction_mono:
  assumes "is_b64 c1" and "is_b64 c2"
    and "fl_le (dec 0 1) c1" and "fl_le c1 c2" and "fl_le c2 (dec 8 1)"
  shows "fl_le (fl_div c1 (dec 8 1)) (fl_div c2 (dec 8 1))"
proof -
  have f2: "is_finite c2"
    using zero_props(2) assms(3-5) eight_props(2) by (rule fl_le_is_finite)
  note c1 = fl_le_nonneg [OF assms(3,4) f2]
  have z2: "fl_le (dec 0 1) c2"
    unfolding fl_le_fval [OF zero_props(2) f2] fval_zero using c1(2,3) by linarith
  have le1: "fl_le c1 (dec 8 1)"
    using assms(5) c1(3) unfolding fl_le_fval [OF f2 eight_props(2)] fl_le_fval [OF c1(1) eight_props(2)]
    by linarith
  note a = cloud_fraction [OF assms(1,3) le1]
  note b = cloud_fraction [OF assms(2) z2 assms(5)]
  have "fval c1 / 8 \<le> fval c2 / 8" using c1(3) by simp
  moreover have "0 \<le> fval c1 / 8" using c1(2) by simp
  ultimately show ?thesis
    unfolding fl_le_fval [OF a(2) b(2)] a(3) b(3) by (intro rval_mono)
qed

text \<open>The factor \<^verbatim>\<open>1 - Cfrac**3\<close> for a cube in \<open>[0, 1]\<close>.\<close>

lemma transmission:
  assumes "fl_le (dec 0 1) y" and "fl_le y (dec 1 1)"
  shows "is_b64 (fl_sub (dec 1 1) y)" and "is_finite (fl_sub (dec 1 1) y)"
    and "fval (fl_sub (dec 1 1) y) = rval (1 - fval y)"
    and "0 \<le> fval (fl_sub (dec 1 1) y)" and "fval (fl_sub (dec 1 1) y) \<le> 1"
proof -
  note y = fl_le_nonneg [OF assms one_props(2), unfolded fval_one]
  have x0: "0 \<le> 1 - fval y" using y(3) by simp
  have x1: "1 - fval y \<le> fval (dec 1 1)" using y(2) by (simp add: fval_one)
  have n: "False \<longrightarrow> 1 - fval y = 0" by simp
  note r = rnd_bounded [of "1 - fval y" "dec 1 1" False, OF x0 x1 one_props(1,2) n,
      folded fl_sub_one [OF y(1,3)], unfolded fval_one]
  show "is_b64 (fl_sub (dec 1 1) y)" "is_finite (fl_sub (dec 1 1) y)"
    "fval (fl_sub (dec 1 1) y) = rval (1 - fval y)"
    using r(1,2,4) by simp_all
  show "0 \<le> fval (fl_sub (dec 1 1) y)" "fval (fl_sub (dec 1 1) y) \<le> 1"
    unfolding r(4) using r(5,6) by simp_all
qed

text \<open>The factor \<^verbatim>\<open>(1.0-albedo)*QswIdeal\<close> for a finite irradiance that is not negative.\<close>

lemma coalbedo_literal: "fl_sub (dec 1 1) (dec 6 100) = Fin False 8466767299456532 (- 53)"
  by code_simp

lemma coalbedo_props:
  "is_b64 (fl_sub (dec 1 1) (dec 6 100))" "is_finite (fl_sub (dec 1 1) (dec 6 100))"
  "0 \<le> fval (fl_sub (dec 1 1) (dec 6 100))" "fval (fl_sub (dec 1 1) (dec 6 100)) \<le> 1"
proof -
  have l: "fl_le (dec 0 1) (fl_sub (dec 1 1) (dec 6 100))" "fl_le (fl_sub (dec 1 1) (dec 6 100)) (dec 1 1)"
    by code_simp+
  show "is_b64 (fl_sub (dec 1 1) (dec 6 100))" "is_finite (fl_sub (dec 1 1) (dec 6 100))"
    by (simp_all add: coalbedo_literal)
  show "0 \<le> fval (fl_sub (dec 1 1) (dec 6 100))" "fval (fl_sub (dec 1 1) (dec 6 100)) \<le> 1"
    using fl_le_nonneg(2,3) [OF l one_props(2)] by (simp_all add: fval_one)
qed

lemma clear_sky:
  assumes "is_b64 q" and "is_finite q" and "fl_le (dec 0 1) q"
  shows "is_b64 (fl_mul (fl_sub (dec 1 1) (dec 6 100)) q)"
    and "is_finite (fl_mul (fl_sub (dec 1 1) (dec 6 100)) q)"
    and "0 \<le> fval (fl_mul (fl_sub (dec 1 1) (dec 6 100)) q)"
proof -
  define A where "A = fl_sub (dec 1 1) (dec 6 100)"
  note A = coalbedo_props [folded A_def]
  have q0: "0 \<le> fval q"
    using assms(3) unfolding fl_le_fval [OF zero_props(2) assms(2)] fval_zero .
  note m = fl_mul_nn [OF A(1-3) assms(1,2) q0]
  have x0: "0 \<le> fval A * fval q" using A(3) q0 by simp
  have x1: "fval A * fval q \<le> fval q" using q0 A(3,4) by (rule mult_left_le_one_le)
  have n: "(negative A \<noteq> negative q) \<longrightarrow> fval A * fval q = 0" using m(2) by simp
  note r = rnd_bounded [of "fval A * fval q" q "negative A \<noteq> negative q",
      OF x0 x1 assms(1,2) n, folded m(1)]
  show "is_b64 (fl_mul (fl_sub (dec 1 1) (dec 6 100)) q)"
    "is_finite (fl_mul (fl_sub (dec 1 1) (dec 6 100)) q)"
    using r(1,2) by (simp_all add: A_def)
  show "0 \<le> fval (fl_mul (fl_sub (dec 1 1) (dec 6 100)) q)"
    unfolding A_def [symmetric] r(4) using r(6) .
qed

text \<open>The product of the two factors.\<close>

lemma irradiance:
  assumes "is_b64 b" and "is_finite b" and "0 \<le> fval b"
    and "is_b64 t" and "is_finite t" and "0 \<le> fval t" and "fval t \<le> 1"
  shows "is_finite (fl_mul b t)" and "fval (fl_mul b t) = rval (fval b * fval t)"
proof -
  note m = fl_mul_nn [OF assms(1-6)]
  have x0: "0 \<le> fval b * fval t" using assms(3,6) by simp
  have x1: "fval b * fval t \<le> fval b" using assms(3,6,7) by (rule mult_right_le_one_le)
  have n: "(negative b \<noteq> negative t) \<longrightarrow> fval b * fval t = 0" using m(2) by simp
  note r = rnd_bounded [of "fval b * fval t" b "negative b \<noteq> negative t",
      OF x0 x1 assms(1,2) n, folded m(1)]
  show "is_finite (fl_mul b t)" "fval (fl_mul b t) = rval (fval b * fval t)"
    using r(1,4) by simp_all
qed

lemma irradiance_mono:
  assumes "is_b64 b" and "is_finite b" and "0 \<le> fval b"
    and "is_b64 t1" and "is_finite t1" and "0 \<le> fval t1" and "fval t1 \<le> 1"
    and "is_b64 t2" and "is_finite t2" and "0 \<le> fval t2" and "fval t2 \<le> fval t1"
  shows "fl_le (fl_mul b t2) (fl_mul b t1)"
proof -
  have t2: "fval t2 \<le> 1" using assms(7,11) by linarith
  note r1 = irradiance [OF assms(1-7)]
  note r2 = irradiance [OF assms(1-3) assms(8-10) t2]
  have "fval b * fval t2 \<le> fval b * fval t1" using assms(3,11) by (simp add: mult_left_mono)
  moreover have "0 \<le> fval b * fval t2" using assms(3,10) by simp
  ultimately show ?thesis
    unfolding fl_le_fval [OF r2(1) r1(1)] r1(2) r2(2) by (intro rval_mono)
qed

text \<open>Multiplying by \<^verbatim>\<open>1.0\<close> is exact.\<close>

lemma fl_mul_one:
  assumes "is_b64 b" and "is_finite b"
  shows "fl_mul b (dec 1 1) = b"
proof -
  obtain s m e where b: "b = Fin s m e" using assms(2) by (cases b) auto
  have b64: "is_b64 (Fin s m e)" using assms(1) b by simp
  then have m: "0 \<le> m" by simp
  show ?thesis
  proof (cases "m = 0")
    case True
    then have "e = - 1074" using b64 by simp
    then show ?thesis using True by (simp add: b one_literal fl_mul_def make_zero_def)
  next
    case False
    then have pos: "0 < m * 2 ^ 52" using m by simp
    have "2 powr real_of_int e = 2 powr (real_of_int (e - 52) + real 52)" by simp
    also have "\<dots> = 2 powr real_of_int (e - 52) * 2 ^ 52" by (rule powr_int_add)
    finally have v: "real_of_int (m * 2 ^ 52) / real_of_int 1 * 2 powr real_of_int (e - 52)
        = real_of_int m * 2 powr real_of_int e"
      by simp
    have "round_q s (m * 2 ^ 52) 1 (e - 52)
        = rnd s (real_of_int (m * 2 ^ 52) / real_of_int 1 * 2 powr real_of_int (e - 52))"
      using pos by (intro round_q_rnd) simp_all
    also have "\<dots> = Fin s m e" unfolding v using b64 by (rule rnd_exact)
    finally have "round_q s (m * 2 ^ 52) 1 (e - 52) = Fin s m e" .
    then show ?thesis using False by (simp add: b one_literal fl_mul_def)
  qed
qed

lemma clear_sky_cube:
  "is_zero c \<Longrightarrow> fl_sub (dec 1 1) (fl_pow cpow (fl_div c (dec 8 1)) 3) = dec 1 1"
proof -
  assume z: "is_zero c"
  have v: "fl_sub (dec 1 1) (make_zero True) = dec 1 1" "fl_sub (dec 1 1) (make_zero False) = dec 1 1"
    by code_simp+
  have "fl_div c (dec 8 1) = make_zero (negative c)"
    using fl_div_zero_left [OF z, of "dec 8 1"] by (simp add: eight_literal)
  moreover have "is_zero (make_zero (negative c))" by (simp add: make_zero_def)
  ultimately have "fl_pow cpow (fl_div c (dec 8 1)) 3 = make_zero (negative c)"
    by (simp add: fl_pow_zero_odd)
  then show ?thesis using v by (cases "negative c") simp_all
qed

lemma overcast_cube: "fl_sub (dec 1 1) (fl_pow cpow (fl_div (dec 8 1) (dec 8 1)) 3) = make_zero False"
proof -
  have d: "fl_div (dec 8 1) (dec 8 1) = Fin False (2 ^ 52) (- 52)" by code_simp
  have s: "fl_sub (dec 1 1) (Fin False (2 ^ 52) (- 52)) = make_zero False" by code_simp
  show ?thesis unfolding d using s by simp
qed

lemma cloud_cover_range:
  assumes "fl_le (dec 0 1) c1" and "fl_le c1 c2" and "fl_le c2 (dec 8 1)"
  shows "fl_le c1 (dec 8 1)" and "fl_le (dec 0 1) c2"
proof -
  have f2: "is_finite c2"
    using zero_props(2) assms eight_props(2) by (rule fl_le_is_finite)
  note c1 = fl_le_nonneg [OF assms(1,2) f2]
  show "fl_le (dec 0 1) c2"
    unfolding fl_le_fval [OF zero_props(2) f2] fval_zero using c1(2,3) by linarith
  show "fl_le c1 (dec 8 1)"
    using assms(3) c1(3) unfolding fl_le_fval [OF f2 eight_props(2)] fl_le_fval [OF c1(1) eight_props(2)]
    by linarith
qed

text \<open>The correctly rounded \<^verbatim>\<open>pow\<close> is monotone on \<open>[0, 1]\<close> and stays there.\<close>

lemma rval_one: "rval 1 = 1"
  using fval_exact(1) [OF one_props(1,2)] by (simp add: fval_one)

lemma cr_cube:
  assumes "is_b64 x" and "fl_le (dec 0 1) x" and "fl_le x (dec 1 1)"
  shows "is_b64 (fl_pow cr_pow x 3)" and "is_finite (fl_pow cr_pow x 3)"
    and "fval (fl_pow cr_pow x 3) = rval (fval x ^ 3)"
proof -
  note x = fl_le_nonneg [OF assms(2,3) one_props(2), unfolded fval_one]
  obtain s m e where X: "x = Fin s m e" using x(1) by (cases x) auto
  have mag: "real_of_int m * 2 powr real_of_int e = fval x"
    using fval_mag(1) [OF assms(1) x(1,2)] by (simp add: X)
  have m0: "0 \<le> m" using assms(1) by (simp add: X)
  have "is_b64 (fl_pow cr_pow x 3) \<and> is_finite (fl_pow cr_pow x 3)
      \<and> fval (fl_pow cr_pow x 3) = rval (fval x ^ 3)"
  proof (cases "m = 0")
    case True
    then have z: "is_zero x" by (simp add: X)
    have v: "fval x = 0" using mag True by simp
    show ?thesis
      unfolding fl_pow_zero_odd [OF z, of 3 cr_pow, simplified] v using assms(1) x(1)
      by (simp add: rval_zero v)
  next
    case False
    show ?thesis
    proof (cases "x = dec 1 1")
      case True
      have p: "fl_pow cr_pow (dec 1 1) 3 = dec 1 1" by (simp add: one_literal)
      show ?thesis unfolding True p using one_props(1,2) by (simp add: fval_one rval_one)
    next
      case ne: False
      have nz: "fval x \<noteq> 0" unfolding mag [symmetric] using False by simp
      have "\<not> negative x" using fval_mag(2) [OF assms(1) x(1,2)] nz by blast
      then have ns: "\<not> s" by (simp add: X)
      have pos: "0 < m ^ 3" using m0 False by simp
      have p: "fl_pow cr_pow x 3 = round_q False (m ^ 3) 1 (e * 3)"
        using False ne ns by (auto simp: X one_literal cr_pow_def)
      have "(2 powr real_of_int e) ^ 3 = 2 powr real_of_int (e * 3)"
        by (simp add: power3_eq_cube powr_add [symmetric] mult.commute)
      then have v: "real_of_int (m ^ 3) / real_of_int 1 * 2 powr real_of_int (e * 3) = fval x ^ 3"
        unfolding mag [symmetric] by (simp add: power_mult_distrib)
      have r: "fl_pow cr_pow x 3 = rnd False (fval x ^ 3)"
        unfolding p v [symmetric] using pos by (intro round_q_rnd) simp_all
      have x0: "0 \<le> fval x ^ 3" using x(2) by simp
      have x1: "fval x ^ 3 \<le> fval (dec 1 1)" using x(2,3) by (simp add: fval_one power_le_one)
      have n: "False \<longrightarrow> fval x ^ 3 = 0" by simp
      note b = rnd_bounded [of "fval x ^ 3" "dec 1 1" False, OF x0 x1 one_props(1,2) n, folded r]
      show ?thesis using b(1,2,4) by simp
    qed
  qed
  then show "is_b64 (fl_pow cr_pow x 3)" "is_finite (fl_pow cr_pow x 3)"
    "fval (fl_pow cr_pow x 3) = rval (fval x ^ 3)"
    by simp_all
qed

lemma fl_le_range:
  assumes "fl_le (dec 0 1) c1" and "fl_le c1 c2" and "fl_le c2 d" and "is_finite d"
  shows "fl_le c1 d" and "fl_le (dec 0 1) c2"
proof -
  have f2: "is_finite c2"
    using zero_props(2) assms by (rule fl_le_is_finite)
  note c1 = fl_le_nonneg [OF assms(1,2) f2]
  show "fl_le (dec 0 1) c2"
    unfolding fl_le_fval [OF zero_props(2) f2] fval_zero using c1(2,3) by linarith
  show "fl_le c1 d"
    using assms(3) c1(3) unfolding fl_le_fval [OF f2 assms(4)] fl_le_fval [OF c1(1) assms(4)]
    by linarith
qed

lemma cr_cube_mono:
  assumes "is_b64 x" and "is_b64 y" and "fl_le (dec 0 1) x" and "fl_le x y"
    and "fl_le y (dec 1 1)"
  shows "is_b64 (fl_pow cr_pow x 3) \<and> fl_le (dec 0 1) (fl_pow cr_pow x 3)
       \<and> fl_le (fl_pow cr_pow x 3) (fl_pow cr_pow y 3)
       \<and> fl_le (fl_pow cr_pow y 3) (dec 1 1)"
proof -
  note range = fl_le_range [OF assms(3-5) one_props(2)]
  note X = cr_cube [OF assms(1,3) range(1)]
  note Y = cr_cube [OF assms(2) range(2) assms(5)]
  note x = fl_le_nonneg [OF assms(3) range(1) one_props(2), unfolded fval_one]
  note y = fl_le_nonneg [OF range(2) assms(5) one_props(2), unfolded fval_one]
  have xy: "fval x \<le> fval y" using assms(4) unfolding fl_le_fval [OF x(1) y(1)] .
  have x3: "0 \<le> fval x ^ 3" using x(2) by simp
  have xy3: "fval x ^ 3 \<le> fval y ^ 3" using xy x(2) by (rule power_mono)
  have y3: "fval y ^ 3 \<le> 1" using y(2,3) by (simp add: power_le_one)
  have "0 \<le> rval (fval x ^ 3)" using x3 by (rule rval_nonneg)
  then have a: "fl_le (dec 0 1) (fl_pow cr_pow x 3)"
    unfolding fl_le_fval [OF zero_props(2) X(2)] fval_zero X(3) .
  have b: "fl_le (fl_pow cr_pow x 3) (fl_pow cr_pow y 3)"
    unfolding fl_le_fval [OF X(2) Y(2)] X(3) Y(3) using x3 xy3 by (rule rval_mono)
  have "rval (fval y ^ 3) \<le> rval 1" using y3 x3 xy3 by (intro rval_mono) linarith+
  then have c: "fl_le (fl_pow cr_pow y 3) (dec 1 1)"
    unfolding fl_le_fval [OF Y(2) one_props(2)] fval_one Y(3) rval_one .
  show ?thesis using X(1) a b c by simp
qed

text \<open>
  Claim C8 as stated fails in its value at \<open>c = 0\<close> for an albedo other than 0.06: under
  a clear sky of 100 W/m2 with an albedo of 1, the specification's function gives
  \<open>(1 - 1) * 100 = 0\<close>; the cell, with 1 left in \<open>albedo\<close>, returns 94.
\<close>

theorem shortwave_clear_sky_albedo:
  "spec_estimate_net_shortwave cr_pow (dec 0 1) (dec 100 1) (dec 1 1) = Inr (dec 0 1)
   \<and> map_sum id Qshortwave (shortwave stub_libs (sky (dec 0 1) (dec 100 1) (dec 1 1)))
       = Inr (dec 94 1)
   \<and> \<not> fl_le (dec 94 1) (dec 0 1)"
  by code_simp

text \<open>
  Claim C8, amended. With the albedo the cell fixes (0.06), a finite clear-sky irradiance
  \<open>q >= 0\<close>, and a C library whose \<^verbatim>\<open>pow\<close> with the exponent 3 is
  monotone on the binary64 numbers of \<open>[0, 1]\<close> and maps them into
  \<open>[0, 1]\<close>, the net shortwave irradiance is non-increasing in cloud cover over
  \<open>[0, 8]\<close> in binary64 arithmetic: for \<open>0 <= c1 <= c2 <= 8\<close> both runs
  return a finite number and the result at \<open>c2\<close> is at most the result at
  \<open>c1\<close>. At \<open>c = 0\<close> the result is the float product
  \<open>(1 - 0.06) * q\<close>, and at \<open>c = 8\<close> it is a zero.
\<close>

theorem shortwave_monotone:
  assumes q: "is_b64 (QswIdeal s1)" "is_finite (QswIdeal s1)" "fl_le (dec 0 1) (QswIdeal s1)"
    and same: "QswIdeal s2 = QswIdeal s1"
    and c: "is_b64 (cloudCover s1)" "is_b64 (cloudCover s2)" "fl_le (dec 0 1) (cloudCover s1)"
      "fl_le (cloudCover s1) (cloudCover s2)" "fl_le (cloudCover s2) (dec 8 1)"
    and cube: "\<And>x y. is_b64 x \<Longrightarrow> is_b64 y \<Longrightarrow> fl_le (dec 0 1) x \<Longrightarrow> fl_le x y
        \<Longrightarrow> fl_le y (dec 1 1) \<Longrightarrow>
        is_b64 (fl_pow (c_pow ext) x 3) \<and> fl_le (dec 0 1) (fl_pow (c_pow ext) x 3)
        \<and> fl_le (fl_pow (c_pow ext) x 3) (fl_pow (c_pow ext) y 3)
        \<and> fl_le (fl_pow (c_pow ext) y 3) (dec 1 1)"
  shows "\<exists>r1 r2. map_sum id Qshortwave (shortwave ext s1) = Inr r1
           \<and> map_sum id Qshortwave (shortwave ext s2) = Inr r2
           \<and> is_finite r1 \<and> is_finite r2 \<and> fl_le r2 r1
           \<and> (if is_zero (cloudCover s1)
               then r1 = fl_mul (fl_sub (dec 1 1) (dec 6 100)) (QswIdeal s1) else True)
           \<and> (if cloudCover s2 = dec 8 1 then is_zero r2 else True)"
proof -
  define f1 where "f1 = fl_div (cloudCover s1) (dec 8 1)"
  define f2 where "f2 = fl_div (cloudCover s2) (dec 8 1)"
  define y1 where "y1 = fl_pow (c_pow ext) f1 3"
  define y2 where "y2 = fl_pow (c_pow ext) f2 3"
  define b where "b = fl_mul (fl_sub (dec 1 1) (dec 6 100)) (QswIdeal s1)"
  define t1 where "t1 = fl_sub (dec 1 1) y1"
  define t2 where "t2 = fl_sub (dec 1 1) y2"
  note range = cloud_cover_range [OF c(3-5)]
  note F1 = cloud_fraction [OF c(1) c(3) range(1), folded f1_def]
  note F2 = cloud_fraction [OF c(2) range(2) c(5), folded f2_def]
  have F12: "fl_le f1 f2"
    unfolding f1_def f2_def using c by (rule cloud_fraction_mono)
  have Y1: "is_b64 y1" "fl_le (dec 0 1) y1" "fl_le y1 (dec 1 1)"
    using cube [OF F1(1) F1(1) F1(4) fl_le_refl [OF F1(2)] F1(5)] by (simp_all add: y1_def)
  have Y2: "is_b64 y2" "fl_le (dec 0 1) y2" "fl_le y2 (dec 1 1)"
    using cube [OF F2(1) F2(1) F2(4) fl_le_refl [OF F2(2)] F2(5)] by (simp_all add: y2_def)
  have Y12: "fl_le y1 y2"
    using cube [OF F1(1) F2(1) F1(4) F12 F2(5)] by (simp add: y1_def y2_def)
  note v1 = fl_le_nonneg [OF Y1(2,3) one_props(2), unfolded fval_one]
  note v2 = fl_le_nonneg [OF Y2(2,3) one_props(2), unfolded fval_one]
  have v12: "fval y1 \<le> fval y2" using Y12 unfolding fl_le_fval [OF v1(1) v2(1)] .
  note T1 = transmission [OF Y1(2,3), folded t1_def]
  note T2 = transmission [OF Y2(2,3), folded t2_def]
  have "1 - fval y2 \<le> 1 - fval y1" using v12 by simp
  moreover have "0 \<le> 1 - fval y2" using v2(3) by simp
  ultimately have T12: "fval t2 \<le> fval t1" unfolding T1(3) T2(3) by (intro rval_mono)
  note B = clear_sky [OF q, folded b_def]
  note R1 = irradiance [OF B T1(1,2,4,5)]
  note R2 = irradiance [OF B T2(1,2,4,5)]
  have le: "fl_le (fl_mul b t2) (fl_mul b t1)"
    using B T1(1,2,4,5) T2(1,2,4) T12 by (rule irradiance_mono)
  have n1: "\<not> is_inf y1" using v1(1) by (cases y1) simp_all
  have n2: "\<not> is_inf y2" using v2(1) by (cases y2) simp_all
  have s1: "map_sum id Qshortwave (shortwave ext s1) = Inr (fl_mul b t1)"
    using n1 by (simp add: shortwave_unfold b_def t1_def y1_def f1_def)
  have s2: "map_sum id Qshortwave (shortwave ext s2) = Inr (fl_mul b t2)"
    using n2 by (simp add: shortwave_unfold b_def t2_def y2_def f2_def same)
  have clear: "fl_mul b t1 = b" if "is_zero (cloudCover s1)"
    unfolding t1_def y1_def f1_def clear_sky_cube [OF that] using B(1,2) by (rule fl_mul_one)
  have overcast: "is_zero (fl_mul b t2)" if "cloudCover s2 = dec 8 1"
    unfolding t2_def y2_def f2_def that overcast_cube
    using B(2) by (simp add: fl_mul_zero_right make_zero_def)
  show ?thesis
    using s1 s2 R1(1) R2(1) le clear overcast unfolding b_def by auto
qed

text \<open>
  Instances under 970 W/m2, with the correctly rounded \<^verbatim>\<open>pow\<close>: 2 and 7 oktas
  give 897.5531249999999 and 300.96523437499997; 0 and 8 oktas give 911.8, the float product
  \<open>(1 - 0.06) * 970\<close>, and 0.
\<close>

theorem shortwave_monotone_witness:
  "fl_le (dec 0 1) (dec 2 1) \<and> fl_le (dec 2 1) (dec 7 1) \<and> fl_le (dec 7 1) (dec 8 1)
   \<and> map_sum id Qshortwave (shortwave stub_libs (sky (dec 2 1) (dec 970 1) (dec 1 2)))
       = Inr (Fin False 7894960779873484 (- 43))
   \<and> map_sum id Qshortwave (shortwave stub_libs (sky (dec 7 1) (dec 970 1) (dec 1 2)))
       = Inr (Fin False 5294636396026265 (- 44))
   \<and> fl_le (Fin False 5294636396026265 (- 44)) (Fin False 7894960779873484 (- 43))
   \<and> map_sum id Qshortwave (shortwave stub_libs (sky (dec 0 1) (dec 970 1) (dec 1 2)))
       = Inr (fl_mul (fl_sub (dec 1 1) (dec 6 100)) (dec 970 1))
   \<and> fl_mul (fl_sub (dec 1 1) (dec 6 100)) (dec 970 1) = Fin False 8020277617649254 (- 43)
   \<and> map_sum id Qshortwave (shortwave stub_libs (sky (dec 8 1) (dec 970 1) (dec 1 2)))
       = Inr (Fin False 0 (- 1074))"
proof -
  have c: "c_pow stub_libs = cr_pow" by (simp add: stub_libs_def)
  have f: "cloudCover (sky k q a) = k" "QswIdeal (sky k q a) = q" for k q a
    by (simp_all add: sky_def)
  have q: "is_b64 (dec 970 1)" "is_finite (dec 970 1)" "fl_le (dec 0 1) (dec 970 1)"
    by code_simp+
  have k: "is_b64 (dec 2 1)" "is_b64 (dec 7 1)" "fl_le (dec 0 1) (dec 2 1)"
    "fl_le (dec 2 1) (dec 7 1)" "fl_le (dec 7 1) (dec 8 1)"
    by code_simp+
  have k': "is_b64 (dec 0 1)" "is_b64 (dec 8 1)" "fl_le (dec 0 1) (dec 0 1)"
    "fl_le (dec 0 1) (dec 8 1)" "fl_le (dec 8 1) (dec 8 1)" "is_zero (dec 0 1)"
    by code_simp+
  have v: "map_sum id Qshortwave (shortwave stub_libs (sky (dec 2 1) (dec 970 1) (dec 1 2)))
       = Inr (Fin False 7894960779873484 (- 43))"
    "map_sum id Qshortwave (shortwave stub_libs (sky (dec 7 1) (dec 970 1) (dec 1 2)))
       = Inr (Fin False 5294636396026265 (- 44))"
    "map_sum id Qshortwave (shortwave stub_libs (sky (dec 8 1) (dec 970 1) (dec 1 2)))
       = Inr (Fin False 0 (- 1074))"
    "fl_mul (fl_sub (dec 1 1) (dec 6 100)) (dec 970 1) = Fin False 8020277617649254 (- 43)"
    by code_simp+
  have mid: "fl_le (Fin False 5294636396026265 (- 44)) (Fin False 7894960779873484 (- 43))"
    using shortwave_monotone [of "sky (dec 2 1) (dec 970 1) (dec 1 2)"
        "sky (dec 7 1) (dec 970 1) (dec 1 2)" stub_libs, unfolded f c, OF q refl k cr_cube_mono]
    unfolding v by auto
  have ends: "map_sum id Qshortwave (shortwave stub_libs (sky (dec 0 1) (dec 970 1) (dec 1 2)))
       = Inr (fl_mul (fl_sub (dec 1 1) (dec 6 100)) (dec 970 1))"
    using shortwave_monotone [of "sky (dec 0 1) (dec 970 1) (dec 1 2)"
        "sky (dec 8 1) (dec 970 1) (dec 1 2)" stub_libs, unfolded f c, OF q refl k'(1-5) cr_cube_mono]
      k'(6)
    by auto
  show ?thesis
    using k(3-5) v mid ends by (intro conjI)
qed

section \<open>Cell 7: the summary\<close>

text \<open>
  The cells after the flux estimator leave its outputs alone.
\<close>

lemma cell4_untouched:
  "Qsensible (cell4 ext s) = Qsensible s" "Qlatent (cell4 ext s) = Qlatent s"
  "LWnet (cell4 ext s) = LWnet s" "QnetMinusSW (cell4 ext s) = QnetMinusSW s"
  "Qshortwave (cell4 ext s) = Qshortwave s"
  by (simp_all add: cell4_def)

lemma cell5_untouched:
  "Qsensible (cell5 s) = Qsensible s" "Qlatent (cell5 s) = Qlatent s" "LWnet (cell5 s) = LWnet s"
  by (simp_all add: cell5_def Let_def)

lemma cell6_untouched:
  "Qsensible (cell6 ext s) = Qsensible s" "Qlatent (cell6 ext s) = Qlatent s"
  "LWnet (cell6 ext s) = LWnet s" "Qnet (cell6 ext s) = Qnet s"
  by (simp_all add: cell6_def Let_def)

lemma bulk_fluxes_fields:
  "Qsensible (bulk_fluxes ext s) = fst (snd (coare35vn ext (bulk_args s)))"
  "Qlatent (bulk_fluxes ext s) = fst (snd (snd (coare35vn ext (bulk_args s))))"
  "LWnet (bulk_fluxes ext s) = fst (snd (snd (snd (coare35vn ext (bulk_args s)))))"
  "QnetMinusSW (bulk_fluxes ext s) = fst (snd (snd (snd (snd (coare35vn ext (bulk_args s))))))"
  "Qshortwave (bulk_fluxes ext s) = Qshortwave s"
  by (simp_all add: bulk_fluxes_def split: prod.splits)

lemma cell5_Qnet: "Qnet (cell5 s) = fl_add (fl_neg (QnetMinusSW s)) (Qshortwave s)"
  by (simp add: cell5_def Let_def)

text \<open>
  Claim C5. For every namespace and any external modules, when the shortwave statements return, the
  summary printed by cell 7 reports the sensible heat flux, the latent heat flux and the net
  longwave radiation as the negations of the estimator's \<open>Qsensible\<close>,
  \<open>Qlatent\<close> and \<open>LWnet\<close> (the second, third and fourth entries of the row
  it returns), and reports the net heat flux, the buoyancy flux and the Obukhov length as the
  pipeline computed them, unnegated; the net heat flux is \<open>-QnetMinusSW + Qshortwave\<close>.
  When the shortwave statements raise, nothing is printed.
\<close>

theorem report_signs:
  "(case shortwave ext s of
      Inl err \<Rightarrow> pipeline ext s = Inl err \<and> report ext s = Inl err
    | Inr s' \<Rightarrow>
        (case coare35vn ext (bulk_args s') of
           (a0, a1, a2, a3, a4, a5) \<Rightarrow>
             (case pipeline ext s of
                Inl err \<Rightarrow> False
              | Inr p \<Rightarrow>
                  report ext s =
                    Inr \<lparr>sensible_heat_flux = fl_neg a1, latent_heat_flux = fl_neg a2,
                         net_longwave_radiation = fl_neg a3,
                         net_heat_flux = Qnet p,
                         buoyancy_flux = Bf p,
                         obukhov_length = L p\<rparr>
                  \<and> Qnet p = fl_add (fl_neg a4) (Qshortwave s'))))"
  by (simp add: report_def cell7_def pipeline_def cell3_def cell6_untouched cell5_untouched
      cell4_untouched bulk_fluxes_fields cell5_Qnet split: prod.splits sum.splits)

text \<open>
  The net shortwave irradiance of the recorded run.
\<close>

lemma recorded_shortwave:
  "map_sum id Qshortwave (shortwave stub_libs (cell2 nb0)) = Inr (Fin False 5294636396026265 (- 44))"
  by code_simp

section \<open>The unit conversion and its inverse\<close>

text \<open>The nearest integer is within one half of the quotient.\<close>

lemma rne_error:
  assumes "0 < b"
  shows "2 * \<bar>rne a b * b - a\<bar> \<le> b"
proof -
  define q where "q = a div b"
  define r where "r = a mod b"
  have a: "a = q * b + r" by (simp add: q_def r_def)
  have r: "0 \<le> r" "r < b" using assms by (simp_all add: r_def)
  have "rne a b = q \<and> 2 * r \<le> b \<or> rne a b = q + 1 \<and> b \<le> 2 * r"
    unfolding rne_def Let_def q_def [symmetric] r_def [symmetric] by auto
  then show ?thesis
  proof
    assume h: "rne a b = q \<and> 2 * r \<le> b"
    then have "rne a b * b - a = - r" using a by simp
    then show ?thesis using h r by simp
  next
    assume h: "rne a b = q + 1 \<and> b \<le> 2 * r"
    then have "rne a b * b - a = b - r" using a by (simp add: algebra_simps)
    then show ?thesis using h r by simp
  qed
qed

lemma rne_real_error:
  assumes "0 < b"
  shows "\<bar>real_of_int (rne a b) - real_of_int a / real_of_int b\<bar> \<le> 1 / 2"
proof -
  have "real_of_int (2 * \<bar>rne a b * b - a\<bar>) \<le> real_of_int b"
    using rne_error [OF assms, of a] by (simp only: of_int_le_iff)
  then have "2 * \<bar>real_of_int (rne a b) * real_of_int b - real_of_int a\<bar> \<le> real_of_int b"
    by simp
  moreover have "real_of_int (rne a b) - real_of_int a / real_of_int b
      = (real_of_int (rne a b) * real_of_int b - real_of_int a) / real_of_int b"
    using assms by (simp add: field_simps)
  ultimately show ?thesis
    using assms by (simp add: abs_divide field_simps)
qed

lemma rne_scaled:
  assumes "0 < b" and "2 ^ 52 * b \<le> a" and "0 < p" and "\<bar>sg\<bar> = (1::real)"
  shows "\<bar>sg * real_of_int (rne a b) * p - sg * (real_of_int a / real_of_int b) * p\<bar>
       \<le> \<bar>sg * (real_of_int a / real_of_int b) * p\<bar> / 2 ^ 53"
proof -
  define Q where "Q = real_of_int a / real_of_int b"
  have "real_of_int (2 ^ 52 * b) \<le> real_of_int a"
    using assms(2) by (simp only: of_int_le_iff)
  then have Q: "2 ^ 52 \<le> Q"
    using assms(1) by (simp add: Q_def field_simps)
  have half: "\<bar>real_of_int (rne a b) - Q\<bar> \<le> 1 / 2"
    unfolding Q_def using assms(1) by (rule rne_real_error)
  have "1 / 2 \<le> Q / 2 ^ 53" using Q by simp
  then have rel: "\<bar>real_of_int (rne a b) - Q\<bar> \<le> Q / 2 ^ 53" using half by linarith
  have "sg * real_of_int (rne a b) * p - sg * Q * p = sg * ((real_of_int (rne a b) - Q) * p)"
    by (simp add: algebra_simps)
  then have lhs: "\<bar>sg * real_of_int (rne a b) * p - sg * Q * p\<bar> = \<bar>real_of_int (rne a b) - Q\<bar> * p"
    using assms(3,4) by (simp add: abs_mult)
  have "0 \<le> Q" using Q by (rule order_trans [rotated]) simp
  then have rhs: "\<bar>sg * Q * p\<bar> = Q * p"
    using assms(3,4) by (simp add: abs_mult)
  have "\<bar>real_of_int (rne a b) - Q\<bar> * p \<le> Q / 2 ^ 53 * p"
    using rel assms(3) by (simp add: mult_right_mono)
  then show ?thesis
    unfolding Q_def [symmetric] lhs rhs by simp
qed

lemma b64_norm_val: "b64_val (b64_norm x) = b64_val x"
  by (cases x) (auto simp: powr_add)

lemma b64_div_close:
  assumes "2 ^ 52 \<le> m1" and "m1 < 2 ^ 53" and "2 ^ 52 \<le> m2" and "m2 < 2 ^ 53"
  shows "\<bar>b64_val (b64_div (s1, m1, e1) (s2, m2, e2)) - b64_val (s1, m1, e1) / b64_val (s2, m2, e2)\<bar>
       \<le> \<bar>b64_val (s1, m1, e1) / b64_val (s2, m2, e2)\<bar> / 2 ^ 53"
proof -
  define sg :: real where "sg = (if s1 \<noteq> s2 then - 1 else 1)"
  have sg: "\<bar>sg\<bar> = 1" by (simp add: sg_def)
  have m2: "0 < m2" using assms(3) by (rule less_le_trans [rotated]) simp
  have m2r: "real_of_int m2 \<noteq> 0" using m2 by simp
  have exact: "b64_val (s1, m1, e1) / b64_val (s2, m2, e2)
      = sg * (real_of_int m1 / real_of_int m2) * 2 powr (real_of_int e1 - real_of_int e2)"
    by (simp add: sg_def powr_diff)
  show ?thesis
  proof (cases "m2 \<le> m1")
    case True
    have le: "2 ^ 52 * m2 \<le> m1 * 2 ^ 52" using True by simp
    have p: "(0::real) < 2 powr real_of_int (e1 - e2 - 52)" by simp
    have "real_of_int (m1 * 2 ^ 52) / real_of_int m2 * 2 powr real_of_int (e1 - e2 - 52)
        = (real_of_int m1 / real_of_int m2) * 2 powr (real_of_int e1 - real_of_int e2)"
      by (simp add: powr_diff)
    then have ex: "b64_val (s1, m1, e1) / b64_val (s2, m2, e2)
        = sg * (real_of_int (m1 * 2 ^ 52) / real_of_int m2) * 2 powr real_of_int (e1 - e2 - 52)"
      unfolding exact by (simp only: mult.assoc)
    have v: "b64_val (b64_div (s1, m1, e1) (s2, m2, e2))
        = sg * real_of_int (rne (m1 * 2 ^ 52) m2) * 2 powr real_of_int (e1 - e2 - 52)"
      using True by (simp add: b64_norm_val sg_def del: b64_norm.simps)
    show ?thesis
      unfolding ex v using m2 le p sg by (rule rne_scaled)
  next
    case False
    have le: "2 ^ 52 * m2 \<le> m1 * 2 ^ 53" using assms by simp
    have p: "(0::real) < 2 powr real_of_int (e1 - e2 - 53)" by simp
    have "real_of_int (m1 * 2 ^ 53) / real_of_int m2 * 2 powr real_of_int (e1 - e2 - 53)
        = (real_of_int m1 / real_of_int m2) * 2 powr (real_of_int e1 - real_of_int e2)"
      by (simp add: powr_diff)
    then have ex: "b64_val (s1, m1, e1) / b64_val (s2, m2, e2)
        = sg * (real_of_int (m1 * 2 ^ 53) / real_of_int m2) * 2 powr real_of_int (e1 - e2 - 53)"
      unfolding exact by (simp only: mult.assoc)
    have v: "b64_val (b64_div (s1, m1, e1) (s2, m2, e2))
        = sg * real_of_int (rne (m1 * 2 ^ 53) m2) * 2 powr real_of_int (e1 - e2 - 53)"
      using False by (simp add: b64_norm_val sg_def del: b64_norm.simps)
    show ?thesis
      unfolding ex v using m2 le p sg by (rule rne_scaled)
  qed
qed


lemma b64_mul_close:
  assumes "2 ^ 52 \<le> m1" and "m1 < 2 ^ 53" and "2 ^ 52 \<le> m2" and "m2 < 2 ^ 53"
  shows "\<bar>b64_val (b64_mul (s1, m1, e1) (s2, m2, e2)) - b64_val (s1, m1, e1) * b64_val (s2, m2, e2)\<bar>
       \<le> \<bar>b64_val (s1, m1, e1) * b64_val (s2, m2, e2)\<bar> / 2 ^ 53"
proof -
  define sg :: real where "sg = (if s1 \<noteq> s2 then - 1 else 1)"
  have sg: "\<bar>sg\<bar> = 1" by (simp add: sg_def)
  have exact: "b64_val (s1, m1, e1) * b64_val (s2, m2, e2)
      = sg * (real_of_int m1 * real_of_int m2) * 2 powr (real_of_int e1 + real_of_int e2)"
    by (simp add: sg_def powr_add)
  have low: "(2 ^ 52 :: int) * 2 ^ 52 \<le> m1 * m2"
    using assms(1,3) by (intro mult_mono) simp_all
  show ?thesis
  proof (cases "m1 * m2 < 2 ^ 105")
    case True
    have b: "(0::int) < 2 ^ 52" by simp
    have p: "(0::real) < 2 powr real_of_int (e1 + e2 + 52)" by simp
    have "real_of_int (m1 * m2) / real_of_int (2 ^ 52) * 2 powr real_of_int (e1 + e2 + 52)
        = (real_of_int m1 * real_of_int m2) * 2 powr (real_of_int e1 + real_of_int e2)"
      by (simp add: powr_add)
    then have ex: "b64_val (s1, m1, e1) * b64_val (s2, m2, e2)
        = sg * (real_of_int (m1 * m2) / real_of_int (2 ^ 52)) * 2 powr real_of_int (e1 + e2 + 52)"
      unfolding exact by (simp only: mult.assoc)
    have v: "b64_val (b64_mul (s1, m1, e1) (s2, m2, e2))
        = sg * real_of_int (rne (m1 * m2) (2 ^ 52)) * 2 powr real_of_int (e1 + e2 + 52)"
      using True by (simp add: b64_norm_val sg_def del: b64_norm.simps)
    show ?thesis
      unfolding ex v using b low p sg by (rule rne_scaled)
  next
    case False
    have b: "(0::int) < 2 ^ 53" by simp
    have le: "(2 ^ 52 :: int) * 2 ^ 53 \<le> m1 * m2" using False by simp
    have p: "(0::real) < 2 powr real_of_int (e1 + e2 + 53)" by simp
    have "real_of_int (m1 * m2) / real_of_int (2 ^ 53) * 2 powr real_of_int (e1 + e2 + 53)
        = (real_of_int m1 * real_of_int m2) * 2 powr (real_of_int e1 + real_of_int e2)"
      by (simp add: powr_add)
    then have ex: "b64_val (s1, m1, e1) * b64_val (s2, m2, e2)
        = sg * (real_of_int (m1 * m2) / real_of_int (2 ^ 53)) * 2 powr real_of_int (e1 + e2 + 53)"
      unfolding exact by (simp only: mult.assoc)
    have v: "b64_val (b64_mul (s1, m1, e1) (s2, m2, e2))
        = sg * real_of_int (rne (m1 * m2) (2 ^ 53)) * 2 powr real_of_int (e1 + e2 + 53)"
      using False by (simp add: b64_norm_val sg_def del: b64_norm.simps)
    show ?thesis
      unfolding ex v using b le p sg by (rule rne_scaled)
  qed
qed

lemma b64_val_3600: "b64_val b64_3600 = 3600"
  by (simp add: b64_3600_def powr_minus_divide)

text \<open>
  Claim C9 as stated fails in binary64: \<^verbatim>\<open>57.0/3600.\<close> is \<^verbatim>\<open>0x1.0369d0369d037p-6\<close>, and
  that times \<^verbatim>\<open>3600.\<close> is \<^verbatim>\<open>0x1.c800000000001p+5\<close>, one unit in the last place above
  \<^verbatim>\<open>57.0\<close>.
\<close>

theorem roundtrip_57_inexact:
  "b64_normal b64_57 \<and> to_kg_per_s_m2 b64_57 = (False, 4563647622402103, - 58)
   \<and> b64_normal (to_kg_per_s_m2 b64_57)
   \<and> to_mm_per_hour (to_kg_per_s_m2 b64_57) = (False, 57 * 2 ^ 47 + 1, - 47)
   \<and> to_mm_per_hour (to_kg_per_s_m2 b64_57) \<noteq> b64_57"
  by (simp add: to_mm_per_hour_def to_kg_per_s_m2_def b64_57_def b64_3600_def rne_def Let_def)

text \<open>For other rates the round trip is exact, \<^verbatim>\<open>7.0\<close> mm/hour for one.\<close>

lemma roundtrip_7_exact: "to_mm_per_hour (to_kg_per_s_m2 b64_7) = b64_7"
  by (simp add: to_mm_per_hour_def to_kg_per_s_m2_def b64_7_def b64_3600_def rne_def Let_def)

text \<open>
  Claim C9, amended. The conversion from mm/hour to kg/(s m2) and its inverse recover the
  original value up to rounding, not exactly: for every normal binary64 rate \<open>x\<close> for which
  \<open>x/3600\<close> and the product back are normal, the converted value is within a relative error
  of \<open>2^-53\<close> of the exact quotient, and the value after the round trip is within a relative
  error of \<open>2^-51\<close> of \<open>x\<close>.
\<close>

theorem unit_roundtrip_error:
  assumes "b64_normal x" and "b64_normal (to_kg_per_s_m2 x)"
    and "b64_normal (to_mm_per_hour (to_kg_per_s_m2 x))"
  shows "\<bar>b64_val (to_kg_per_s_m2 x) - b64_val x / 3600\<bar> \<le> \<bar>b64_val x / 3600\<bar> / 2 ^ 53
       \<and> \<bar>b64_val (to_mm_per_hour (to_kg_per_s_m2 x)) - b64_val x\<bar> \<le> \<bar>b64_val x\<bar> / 2 ^ 51"
proof -
  obtain s m e where x: "x = (s, m, e)" by (cases x) auto
  obtain s' m' e' where y: "to_kg_per_s_m2 x = (s', m', e')" by (cases "to_kg_per_s_m2 x") auto
  define X where "X = b64_val x"
  define Y where "Y = b64_val (to_kg_per_s_m2 x)"
  define Z where "Z = b64_val (to_mm_per_hour (to_kg_per_s_m2 x))"
  have c: "(2 ^ 52 :: int) \<le> 3600 * 2 ^ 41" "(3600 * 2 ^ 41 :: int) < 2 ^ 53" by simp_all
  have mx: "2 ^ 52 \<le> m" "m < 2 ^ 53" using assms(1) x by simp_all
  have my: "2 ^ 52 \<le> m'" "m' < 2 ^ 53" using assms(2) y by simp_all
  have "\<bar>b64_val (b64_div (s, m, e) (False, 3600 * 2 ^ 41, - 41))
        - b64_val (s, m, e) / b64_val (False, 3600 * 2 ^ 41, - 41)\<bar>
      \<le> \<bar>b64_val (s, m, e) / b64_val (False, 3600 * 2 ^ 41, - 41)\<bar> / 2 ^ 53"
    using mx c by (rule b64_div_close)
  then have d: "\<bar>Y - X / 3600\<bar> \<le> \<bar>X / 3600\<bar> / 2 ^ 53"
    using b64_val_3600 by (simp only: X_def Y_def x to_kg_per_s_m2_def b64_3600_def)
  have "\<bar>b64_val (b64_mul (s', m', e') (False, 3600 * 2 ^ 41, - 41))
        - b64_val (s', m', e') * b64_val (False, 3600 * 2 ^ 41, - 41)\<bar>
      \<le> \<bar>b64_val (s', m', e') * b64_val (False, 3600 * 2 ^ 41, - 41)\<bar> / 2 ^ 53"
    using my c by (rule b64_mul_close)
  then have p: "\<bar>Z - Y * 3600\<bar> \<le> \<bar>Y * 3600\<bar> / 2 ^ 53"
    using b64_val_3600 by (simp only: Y_def Z_def y to_mm_per_hour_def b64_3600_def)
  have d': "\<bar>Y * 3600 - X\<bar> \<le> \<bar>X\<bar> / 2 ^ 53"
  proof -
    have "Y * 3600 - X = (Y - X / 3600) * 3600" by simp
    then have "\<bar>Y * 3600 - X\<bar> = \<bar>Y - X / 3600\<bar> * 3600" by (simp only: abs_mult)
    also have "\<dots> \<le> \<bar>X / 3600\<bar> / 2 ^ 53 * 3600" using d by simp
    also have "\<dots> = \<bar>X\<bar> / 2 ^ 53" by simp
    finally show ?thesis .
  qed
  have "\<bar>Y * 3600\<bar> \<le> \<bar>X\<bar> + \<bar>X\<bar> / 2 ^ 53" using d' by linarith
  also have "\<dots> \<le> 2 * \<bar>X\<bar>" by simp
  finally have "\<bar>Y * 3600\<bar> / 2 ^ 53 \<le> 2 * \<bar>X\<bar> / 2 ^ 53" by (simp add: divide_right_mono)
  then have "\<bar>Z - Y * 3600\<bar> \<le> 2 * \<bar>X\<bar> / 2 ^ 53" using p by linarith
  then have "\<bar>Z - X\<bar> \<le> 2 * \<bar>X\<bar> / 2 ^ 53 + \<bar>X\<bar> / 2 ^ 53" using d' by linarith
  also have "\<dots> \<le> \<bar>X\<bar> / 2 ^ 51" by simp
  finally have "\<bar>Z - X\<bar> \<le> \<bar>X\<bar> / 2 ^ 51" .
  then show ?thesis using d by (simp only: X_def Y_def Z_def simp_thms)
qed

theorem unit_roundtrip_error_witness:
  "b64_normal b64_57 \<and> b64_normal (to_kg_per_s_m2 b64_57)
   \<and> b64_normal (to_mm_per_hour (to_kg_per_s_m2 b64_57))
   \<and> \<bar>b64_val (to_mm_per_hour (to_kg_per_s_m2 b64_57)) - b64_val b64_57\<bar>
       \<le> \<bar>b64_val b64_57\<bar> / 2 ^ 51"
  using unit_roundtrip_error [of b64_57]
  by (simp add: to_mm_per_hour_def to_kg_per_s_m2_def b64_57_def b64_3600_def rne_def Let_def)

text \<open>
  The operations of the notebook's numbers give the same round trip for 57 mm/hour.
\<close>

lemma roundtrip_57_npfloat:
  "fl_mul (fl_div (dec 57 1) (dec 3600 1)) (dec 3600 1) = Fin False (57 * 2 ^ 47 + 1) (- 47)
   \<and> dec 57 1 = Fin False (57 * 2 ^ 47) (- 47)
   \<and> to_mm_per_hour (to_kg_per_s_m2 b64_57) = (False, 57 * 2 ^ 47 + 1, - 47)"
  by code_simp

text \<open>The rain of the notebook, \<^verbatim>\<open>0.0\<close> mm/hour, is recovered.\<close>

lemma roundtrip_zero: "fl_mul (fl_div (dec 0 1) (dec 3600 1)) (dec 3600 1) = dec 0 1"
  by code_simp

end
